theory Spec2Isabelle
  imports Main "HOL-Library.Sublist" "HOL-Library.Char_ord" "HOL-Library.List_Lexorder"
begin

section \<open>Python strings\<close>

text \<open>
  The notebooks work on Python \<^verbatim>\<open>str\<close> values; they are modelled as \<^typ>\<open>string\<close>.
  \<^verbatim>\<open>s.replace(old, new)\<close> replaces every non-overlapping occurrence of \<^verbatim>\<open>old\<close>,
  scanning from the left and continuing after each replaced occurrence. For an empty
  \<^verbatim>\<open>old\<close> Python inserts \<^verbatim>\<open>new\<close> before every character and at the end.
\<close>

fun replace_from :: "string \<Rightarrow> string \<Rightarrow> string \<Rightarrow> string" where
  "replace_from [] old new = []"
| "replace_from (c # cs) old new =
     (if old \<noteq> [] \<and> prefix old (c # cs)
      then new @ replace_from (drop (length old) (c # cs)) old new
      else c # replace_from cs old new)"

definition str_replace :: "string \<Rightarrow> string \<Rightarrow> string \<Rightarrow> string" where
  "str_replace s old new =
     (if old = [] then new @ concat (map (\<lambda>c. c # new) s) else replace_from s old new)"

text \<open>\<^verbatim>\<open>old in s\<close> on strings: \<^verbatim>\<open>old\<close> is a substring of \<^verbatim>\<open>s\<close>.\<close>

fun str_contains :: "string \<Rightarrow> string \<Rightarrow> bool" where
  "str_contains old [] = (old = [])"
| "str_contains old (c # cs) = (prefix old (c # cs) \<or> str_contains old cs)"

text \<open>\<^verbatim>\<open>s.count\<close> counts non-overlapping occurrences; the number of start positions
  at which \<^verbatim>\<open>old\<close> occurs (overlapping ones included) is the finer measure used to
  say that a substring occurs exactly once.\<close>

fun occurrences :: "string \<Rightarrow> string \<Rightarrow> nat" where
  "occurrences old [] = (if old = [] then 1 else 0)"
| "occurrences old (c # cs) = (if prefix old (c # cs) then 1 else 0) + occurrences old cs"

section \<open>Template builder\<close>

text \<open>
  Both notebooks define the module constants \<^verbatim>\<open>XMIN, YMIN, XMAX, YMAX\<close> (floats) and
  substitute \<^verbatim>\<open>str(XMIN)\<close> etc. A bounding box is represented by the decimal strings
  that \<^verbatim>\<open>str\<close> yields for its four coordinates.
\<close>

datatype coord = XMIN | YMIN | XMAX | YMAX

type_synonym bounds = "coord \<Rightarrow> string"

fun placeholder :: "coord \<Rightarrow> string" where
  "placeholder XMIN = ''{XMIN}''"
| "placeholder YMIN = ''{YMIN}''"
| "placeholder XMAX = ''{XMAX}''"
| "placeholder YMAX = ''{YMAX}''"

text \<open>\<^verbatim>\<open>str(-20037507.539400)\<close> etc.: the shortest decimal form that reads back as the
  same float.\<close>

fun reference_bounds :: bounds where
  "reference_bounds XMIN = ''-20037507.5394''"
| "reference_bounds YMIN = ''1638517.4448''"
| "reference_bounds XMAX = ''20037260.9187''"
| "reference_bounds YMAX = ''7714669.3946''"

text \<open>\<^verbatim>\<open>formulate_url_template\<close> of \<^verbatim>\<open>web_map_services.ipynb\<close>, with the bounding box
  (module constants in the source) as a parameter.\<close>

definition formulate_url_template :: "bounds \<Rightarrow> string \<Rightarrow> string" where
  "formulate_url_template B url =
     str_replace (str_replace (str_replace (str_replace url
       (B XMIN) ''{XMIN}'') (B YMIN) ''{YMIN}'') (B XMAX) ''{XMAX}'') (B YMAX) ''{YMAX}''"


text \<open>Four replacements in the order of the source, from the strings \<open>f\<close> to the
  strings \<open>g\<close>; both directions of the round trip are instances.\<close>

definition replace4 :: "(coord \<Rightarrow> string) \<Rightarrow> (coord \<Rightarrow> string) \<Rightarrow> string \<Rightarrow> string" where
  "replace4 f g s = replace_from (replace_from (replace_from (replace_from s
     (f XMIN) (g XMIN)) (f YMIN) (g YMIN)) (f XMAX) (g XMAX)) (f YMAX) (g YMAX)"

subsection \<open>Request templates and their instances\<close>

text \<open>
  Modelled from the spec: the "fixed request template" into which a bounding box is
  substituted is not a value of the program (the capabilities client builds the URL);
  it is represented as the fixed text pieces of the request with a hole for each
  coordinate. \<open>instantiate\<close> is the concrete URL for a bounding box,
  \<open>template_string\<close> the template with the placeholder tokens in the holes.
\<close>

datatype piece = Text string | Hole coord

type_synonym template = "piece list"

fun render :: "(coord \<Rightarrow> string) \<Rightarrow> template \<Rightarrow> string" where
  "render f [] = []"
| "render f (Text s # ps) = s @ render f ps"
| "render f (Hole c # ps) = f c @ render f ps"

definition instantiate :: "bounds \<Rightarrow> template \<Rightarrow> string" where
  "instantiate B t = render B t"

definition template_string :: "template \<Rightarrow> string" where
  "template_string t = render placeholder t"

definition each_hole_once :: "template \<Rightarrow> bool" where
  "each_hole_once t =
     (count_list t (Hole XMIN) = 1 \<and> count_list t (Hole YMIN) = 1 \<and>
      count_list t (Hole XMAX) = 1 \<and> count_list t (Hole YMAX) = 1)"

text \<open>
  Modelled from the spec: "substituting B back into the placeholders", what the
  rendering surface does with a template for the tile's bounding box.
\<close>

definition substitute_bounds :: "bounds \<Rightarrow> string \<Rightarrow> string" where
  "substitute_bounds B tmpl =
     str_replace (str_replace (str_replace (str_replace tmpl
       ''{XMIN}'' (B XMIN)) ''{YMIN}'' (B YMIN)) ''{XMAX}'' (B XMAX)) ''{YMAX}'' (B YMAX)"

text \<open>
  The decimal string of a float is never empty and consists of digits, sign, point,
  exponent marker, or the letters of \<^verbatim>\<open>inf\<close> and \<^verbatim>\<open>nan\<close>.
\<close>

definition decimal_form :: "string \<Rightarrow> bool" where
  "decimal_form s = (s \<noteq> [] \<and> list_all (\<lambda>c. c \<in> set ''0123456789.-+einfa'') s)"

definition decimal_bounds :: "bounds \<Rightarrow> bool" where
  "decimal_bounds B =
     (decimal_form (B XMIN) \<and> decimal_form (B YMIN) \<and> decimal_form (B XMAX) \<and> decimal_form (B YMAX))"

text \<open>
  The characters of a URL (RFC 3986: unreserved, reserved and the percent sign of an
  escape). The capabilities client returns percent-encoded URLs; braces are not URL
  characters.
\<close>

definition url_char :: "char \<Rightarrow> bool" where
  "url_char c =
     (c \<in> set ''ABCDEFGHIJKLMNOPQRSTUVWXYZabcdefghijklmnopqrstuvwxyz0123456789''
      \<or> c \<in> set ''-._~:/?#[]@!$&()*+,;=%'' \<or> c = CHR 0x27)"

definition is_url :: "string \<Rightarrow> bool" where
  "is_url s = list_all url_char s"

section \<open>Errors\<close>

text \<open>
  Exceptions are values. \<open>Interrupt\<close> stands for the exceptions that do not derive
  from \<^verbatim>\<open>Exception\<close> (\<^verbatim>\<open>KeyboardInterrupt\<close>, \<^verbatim>\<open>SystemExit\<close>), which
  \<^verbatim>\<open>except Exception\<close> does not catch.
\<close>

datatype error = KeyError | ValueError | ServiceException string | Interrupt

fun is_Exception :: "error \<Rightarrow> bool" where
  "is_Exception Interrupt = False"
| "is_Exception _ = True"

section \<open>More string and dictionary operations\<close>

text \<open>\<^verbatim>\<open>s.split(sep)\<close> for a one-character separator.\<close>

fun split_on :: "char \<Rightarrow> string \<Rightarrow> string list" where
  "split_on sep [] = [[]]"
| "split_on sep (c # cs) =
     (if c = sep then [] # split_on sep cs
      else (case split_on sep cs of w # ws \<Rightarrow> (c # w) # ws | [] \<Rightarrow> [[c]]))"

text \<open>\<^verbatim>\<open>a, b = s.split(sep, 1)\<close> where \<^verbatim>\<open>sep in s\<close>: the text before the first
  separator and the text after it.\<close>

definition split_first :: "char \<Rightarrow> string \<Rightarrow> string \<times> string" where
  "split_first sep s = (takeWhile (\<lambda>c. c \<noteq> sep) s, drop 1 (dropWhile (\<lambda>c. c \<noteq> sep) s))"

text \<open>\<^verbatim>\<open>s.lstrip("P")\<close> removes every leading \<^verbatim>\<open>P\<close>.\<close>

definition lstrip_P :: "string \<Rightarrow> string" where
  "lstrip_P s = dropWhile (\<lambda>c. c = CHR ''P'') s"

text \<open>\<^verbatim>\<open>a or b\<close> on optional strings: \<^verbatim>\<open>None\<close> and the empty string are falsy.\<close>

definition py_or :: "string option \<Rightarrow> string option \<Rightarrow> string option" where
  "py_or a b = (case a of Some (c # cs) \<Rightarrow> a | _ \<Rightarrow> b)"

text \<open>The text an f-string inserts for an optional string.\<close>

fun py_format :: "string option \<Rightarrow> string" where
  "py_format None = ''None''"
| "py_format (Some s) = s"

text \<open>
  A \<^verbatim>\<open>dict\<close> from product names to layer lists, as an association list in insertion
  order with distinct keys. \<open>dict_setdefault_empty\<close> is
  \<^verbatim>\<open>if k not in d: d[k] = []\<close>, \<open>dict_append\<close> is \<^verbatim>\<open>d[k].append(v)\<close>.
\<close>

type_synonym catalog = "(string \<times> string list) list"

definition dict_setdefault_empty :: "catalog \<Rightarrow> string \<Rightarrow> catalog" where
  "dict_setdefault_empty d k = (if k \<notin> set (map fst d) then d @ [(k, [])] else d)"

definition dict_append :: "catalog \<Rightarrow> string \<Rightarrow> string \<Rightarrow> catalog" where
  "dict_append d k v = map (\<lambda>(k', vs). if k' = k then (k', vs @ [v]) else (k', vs)) d"

section \<open>External collaborators\<close>

subsection \<open>Capabilities service\<close>

text \<open>
  \<^verbatim>\<open>wms.contents\<close> maps layer identifiers to metadata; of the metadata the explorer
  reads \<^verbatim>\<open>timepositions\<close>, which is \<^verbatim>\<open>None\<close> or a list of strings. The keyword
  arguments of \<^verbatim>\<open>wms.getmap\<close> are a record; \<open>kw_time\<close> is \<open>None\<close> when the key has
  been popped and \<open>Some t\<close> when \<^verbatim>\<open>time=t\<close> is passed (\<open>t\<close> itself optional).
  The service is a function of the attempt number and the request to an error or the
  URL that \<^verbatim>\<open>geturl()\<close> returns, so that it may answer a repeated request differently.
\<close>

record layer_meta =
  timepositions :: "string list option"

type_synonym wms_contents = "(string \<times> layer_meta) list"

record getmap_kwargs =
  kw_layers :: "string list"
  kw_srs :: string
  kw_bbox :: "string \<times> string \<times> string \<times> string"
  kw_size :: "nat \<times> nat"
  kw_format :: string
  kw_transparent :: bool
  kw_time :: "string option option"

type_synonym wms_getmap = "nat \<Rightarrow> getmap_kwargs \<Rightarrow> error + string"

text \<open>\<^verbatim>\<open>wms.contents[layer]\<close>; the key may be \<^verbatim>\<open>None\<close>, which is in no catalogue.\<close>

definition contents_lookup :: "wms_contents \<Rightarrow> string option \<Rightarrow> error + layer_meta" where
  "contents_lookup contents layer =
     (case layer of None \<Rightarrow> Inl KeyError
      | Some l \<Rightarrow> (case map_of contents l of None \<Rightarrow> Inl KeyError | Some m \<Rightarrow> Inr m))"

subsection \<open>Widgets\<close>

text \<open>
  Modelled from the spec: the widget toolkit is not part of the repository; of a
  widget the explorer uses its options and its current value, and relies on the
  control to choose a value when its options change ("this implicitly forces a new
  current layer to be chosen by the UI control"). A new widget takes the first option;
  when the options are assigned, the value stays if it is still offered, becomes the
  first option otherwise, and \<^verbatim>\<open>None\<close> when there is none.
\<close>

record widget =
  sel_options :: "string list"
  sel_value :: "string option"

definition new_select :: "string list \<Rightarrow> widget" where
  "new_select opts =
     \<lparr>sel_options = opts, sel_value = (case opts of [] \<Rightarrow> None | v # _ \<Rightarrow> Some v)\<rparr>"

definition set_options :: "string list \<Rightarrow> widget \<Rightarrow> widget" where
  "set_options opts w =
     \<lparr>sel_options = opts,
      sel_value = (case opts of [] \<Rightarrow> None
                   | v # _ \<Rightarrow> (case sel_value w of None \<Rightarrow> Some v
                                | Some x \<Rightarrow> if x \<in> set opts then Some x else Some v))\<rparr>"

subsection \<open>Time arithmetic of the data-frame library\<close>

text \<open>
  Modelled from the spec: the data-frame library is not part of the repository; the
  explorer asks it for "the full list of timestamps at period granularity between start
  and end inclusive". Instants and durations are integers (nanoseconds). The parsers
  and the formatter of the library are parameters: \<open>Timedelta\<close> parses a duration and raises
  \<open>ValueError\<close> on a string it cannot read, \<open>Timestamp\<close> parses the ends of a range,
  \<open>strftime\<close> formats an instant, and \<open>offset_range\<close> is \<^verbatim>\<open>date_range\<close> for a
  frequency given by name (calendar offsets) or by a non-positive duration.
  For a positive duration \<^verbatim>\<open>date_range(start, end, freq)\<close> is the arithmetic
  progression from \<open>start\<close> in steps of \<open>freq\<close> that does not pass \<open>end\<close>.
\<close>

datatype freq = Delta int | Alias string

record pandas =
  Timedelta :: "string \<Rightarrow> error + int"
  Timestamp :: "string \<Rightarrow> error + int"
  offset_range :: "int \<Rightarrow> int \<Rightarrow> freq \<Rightarrow> error + int list"
  strftime :: "string \<Rightarrow> int \<Rightarrow> string"

definition fixed_range :: "int \<Rightarrow> int \<Rightarrow> int \<Rightarrow> int list" where
  "fixed_range s e d = map (\<lambda>k. s + int k * d) [0 ..< nat ((e - s) div d + 1)]"

definition date_range :: "pandas \<Rightarrow> string \<Rightarrow> string \<Rightarrow> freq \<Rightarrow> error + int list" where
  "date_range pd ini end fr =
     (case Timestamp pd ini of Inl err \<Rightarrow> Inl err
      | Inr s \<Rightarrow>
          (case Timestamp pd end of Inl err \<Rightarrow> Inl err
           | Inr e \<Rightarrow>
               (case fr of
                  Delta d \<Rightarrow> if 0 < d then Inr (fixed_range s e d) else offset_range pd s e fr
                | Alias a \<Rightarrow> offset_range pd s e fr)))"

text \<open>The library calls that \<^verbatim>\<open>update_time\<close> makes, in order, and the fallback it
  takes.\<close>

datatype call =
    Timedelta_call string
  | Lstrip_fallback string
  | Date_range_call string string freq

section \<open>The explorer\<close>

record explorer =
  products_layers :: catalog
  product_select :: widget
  layer_select :: widget
  time_slider :: widget
  refreshes :: nat

text \<open>The body of the loop of \<^verbatim>\<open>__init__\<close> for one layer identifier, and the loop.\<close>

definition add_layer :: "catalog \<Rightarrow> string \<Rightarrow> catalog" where
  "add_layer d layer =
     (if CHR ''_'' \<in> set layer then
        (case split_first CHR ''_'' layer of
           (product, product_layer) \<Rightarrow>
             dict_append (dict_setdefault_empty d product) product product_layer)
      else dict_append d ''Miscellaneous'' layer)"

definition build_products_layers :: "string list \<Rightarrow> catalog" where
  "build_products_layers layers = foldl add_layer [(''Miscellaneous'', [])] layers"

text \<open>
  \<^verbatim>\<open>__init__\<close>, given the contents that the service constructor fetched. The
  subscript \<^verbatim>\<open>self.products_layers[self.product_select.value]\<close> raises on a missing key.
\<close>

definition init :: "wms_contents \<Rightarrow> error + explorer" where
  "init contents =
     (let layers = sort (map fst contents);
          pl = build_products_layers layers;
          ps = new_select (sort (map fst pl))
      in case sel_value ps of None \<Rightarrow> Inl KeyError
         | Some p \<Rightarrow>
             (case map_of pl p of None \<Rightarrow> Inl KeyError
              | Some ls \<Rightarrow>
                  Inr \<lparr>products_layers = pl, product_select = ps,
                       layer_select = new_select (sort ls),
                       time_slider = \<lparr>sel_options = [], sel_value = None\<rparr>,
                       refreshes = 0\<rparr>))"

text \<open>\<^verbatim>\<open>refresh_layer\<close> triggers the throttled-value event that re-renders the map.\<close>

definition refresh_layer :: "explorer \<Rightarrow> explorer" where
  "refresh_layer st = st\<lparr>refreshes := Suc (refreshes st)\<rparr>"

definition get_layer :: "explorer \<Rightarrow> string option \<Rightarrow> string option \<Rightarrow> string option" where
  "get_layer st product product_layer =
     (let product = py_or product (sel_value (product_select st)) in
      if product = Some ''Miscellaneous''
      then py_or product_layer (sel_value (layer_select st))
      else Some (py_format product @ ''_''
                 @ py_format (py_or product_layer (sel_value (layer_select st)))))"

definition update_layers :: "explorer \<Rightarrow> string \<Rightarrow> error + explorer" where
  "update_layers st product =
     (case map_of (products_layers st) product of None \<Rightarrow> Inl KeyError
      | Some product_layers \<Rightarrow>
          Inr (st\<lparr>layer_select := set_options (sort product_layers) (layer_select st)\<rparr>))"

text \<open>The product-change event: the product widget takes the value and the bound
  \<^verbatim>\<open>update_layers\<close> runs with it.\<close>

definition product_changed :: "explorer \<Rightarrow> string \<Rightarrow> error + explorer" where
  "product_changed st product =
     update_layers (st\<lparr>product_select := (product_select st)\<lparr>sel_value := Some product\<rparr>\<rparr>) product"

text \<open>The tail of the time-dependent branch of \<^verbatim>\<open>update_time\<close>, from
  \<^verbatim>\<open>pd.date_range\<close> on, once \<^verbatim>\<open>freq\<close> is known.\<close>

definition materialize ::
  "pandas \<Rightarrow> explorer \<Rightarrow> call list \<Rightarrow> string \<Rightarrow> string \<Rightarrow> freq \<Rightarrow> call list \<times> (error + explorer)" where
  "materialize pd st calls ini end fr =
     (case date_range pd ini end fr of
        Inl err \<Rightarrow> (calls @ [Date_range_call ini end fr], Inl err)
      | Inr ts \<Rightarrow>
          (let options = map (strftime pd ''%Y-%m-%dT%H:%M:%SZ'') ts in
           (calls @ [Date_range_call ini end fr],
            Inr (refresh_layer
                  (if options \<noteq> []
                   then st\<lparr>time_slider := \<lparr>sel_options = options, sel_value = Some (hd options)\<rparr>\<rparr>
                   else st)))))"

definition update_time ::
  "pandas \<Rightarrow> wms_contents \<Rightarrow> explorer \<Rightarrow> string option \<Rightarrow> call list \<times> (error + explorer)" where
  "update_time pd contents st product_layer =
     (case contents_lookup contents (get_layer st None None) of
        Inl err \<Rightarrow> ([], Inl err)
      | Inr meta \<Rightarrow>
          (case timepositions meta of
             Some (tp # rest) \<Rightarrow>
               (case split_on CHR ''/'' tp of
                  [ini, end, step] \<Rightarrow>
                    (case Timedelta pd step of
                       Inr d \<Rightarrow> materialize pd st [Timedelta_call step] ini end (Delta d)
                     | Inl ValueError \<Rightarrow>
                         materialize pd st [Timedelta_call step, Lstrip_fallback step]
                           ini end (Alias (lstrip_P step))
                     | Inl err \<Rightarrow> ([Timedelta_call step], Inl err))
                | _ \<Rightarrow> ([], Inl ValueError))
           | _ \<Rightarrow>
               ([], Inr (refresh_layer
                          (st\<lparr>time_slider := set_options [''N/A''] (time_slider st)\<rparr>)))))"

text \<open>
  \<^verbatim>\<open>get_url_template\<close>, with the bounding box as a parameter. \<open>get_map_kwargs\<close>
  is the dictionary of that name as first built. The result carries the requests made,
  in order.
\<close>

definition get_map_kwargs :: "bounds \<Rightarrow> string \<Rightarrow> string option \<Rightarrow> getmap_kwargs" where
  "get_map_kwargs B layer time =
     \<lparr>kw_layers = [layer], kw_srs = ''EPSG:3857'',
      kw_bbox = (B XMIN, B YMIN, B XMAX, B YMAX), kw_size = (256, 256),
      kw_format = ''image/png'', kw_transparent = True, kw_time = Some time\<rparr>"

definition get_url_template ::
  "bounds \<Rightarrow> wms_getmap \<Rightarrow> string \<Rightarrow> string option \<Rightarrow> getmap_kwargs list \<times> (error + string)" where
  "get_url_template B wms layer time =
     (let kwargs = get_map_kwargs B layer time;
          url_template = (\<lambda>url.
            str_replace (str_replace (str_replace (str_replace url
              (B XMIN) ''{XMIN}'') (B YMIN) ''{YMIN}'') (B XMAX) ''{XMAX}'') (B YMAX) ''{YMAX}'')
      in case wms 0 kwargs of
           Inr url \<Rightarrow> ([kwargs], Inr (url_template url))
         | Inl err \<Rightarrow>
             if is_Exception err then
               (let retry_kwargs = kwargs\<lparr>kw_time := None\<rparr> in
                case wms 1 retry_kwargs of
                  Inr url \<Rightarrow> ([kwargs, retry_kwargs], Inr (url_template url))
                | Inl err' \<Rightarrow> ([kwargs, retry_kwargs], Inl err'))
             else ([kwargs], Inl err))"

section \<open>The classification rule\<close>

text \<open>
  Modelled from the spec: the rule of the data model, to compare the loop with: an identifier with an underscore belongs to the
  product before its first underscore under the name after it; any other identifier
  belongs to the sentinel product under its own name. \<open>bucket_of p\<close> lists, in order,
  the names of the identifiers that belong to \<open>p\<close>.
\<close>

definition classify :: "string \<Rightarrow> string \<times> string" where
  "classify layer =
     (if CHR ''_'' \<in> set layer then split_first CHR ''_'' layer else (''Miscellaneous'', layer))"

definition bucket_of :: "string \<Rightarrow> string list \<Rightarrow> string list" where
  "bucket_of p layers = map snd (filter (\<lambda>x. fst x = p) (map classify layers))"

section \<open>Example data\<close>

text \<open>The catalogue of the end-to-end scenario, as the service might list it, and the
  explorer constructed from it.\<close>

definition example_contents :: wms_contents where
  "example_contents =
     [(''Water Bodies'', \<lparr>timepositions = None\<rparr>),
      (''GPW_Population_Density_2020'', \<lparr>timepositions = None\<rparr>),
      (''GPW_Population_Density_2000'', \<lparr>timepositions = None\<rparr>)]"

definition example_explorer :: explorer where
  "example_explorer =
     \<lparr>products_layers =
        [(''Miscellaneous'', [''Water Bodies'']),
         (''GPW'', [''Population_Density_2000'', ''Population_Density_2020''])],
      product_select = \<lparr>sel_options = [''GPW'', ''Miscellaneous''], sel_value = Some ''GPW''\<rparr>,
      layer_select =
        \<lparr>sel_options = [''Population_Density_2000'', ''Population_Density_2020''],
         sel_value = Some ''Population_Density_2000''\<rparr>,
      time_slider = \<lparr>sel_options = [], sel_value = None\<rparr>,
      refreshes = 0\<rparr>"

text \<open>A request as the service builds it for the reference box, cut at the four
  coordinates.\<close>

definition example_template :: template where
  "example_template =
     [Text ''https://gibs.earthdata.nasa.gov/wms/epsg3857/best/wms.cgi?SERVICE=WMS&srs=EPSG%3A3857&bbox='',
      Hole XMIN, Text ''%2C'', Hole YMIN, Text ''%2C'', Hole XMAX, Text ''%2C'', Hole YMAX,
      Text ''&width=256&height=256&format=image%2Fpng'']"

text \<open>A box whose first coordinate string is a substring of its third.\<close>

fun overlapping_bounds :: bounds where
  "overlapping_bounds XMIN = ''1.5''"
| "overlapping_bounds YMIN = ''0.5''"
| "overlapping_bounds XMAX = ''11.5''"
| "overlapping_bounds YMAX = ''2.5''"

text \<open>A catalogue in which every identifier has a product prefix, and one whose only
  identifier has the sentinel itself as its prefix, with the explorer built from it.\<close>

definition underscored_contents :: wms_contents where
  "underscored_contents =
     [(''MODIS_Terra_Aerosol'', \<lparr>timepositions = None\<rparr>),
      (''GPW_Population_Density_2000'', \<lparr>timepositions = None\<rparr>)]"

definition sentinel_prefixed_contents :: wms_contents where
  "sentinel_prefixed_contents = [(''Miscellaneous_Foo'', \<lparr>timepositions = None\<rparr>)]"

definition sentinel_prefixed_explorer :: explorer where
  "sentinel_prefixed_explorer =
     \<lparr>products_layers = [(''Miscellaneous'', [''Foo''])],
      product_select = \<lparr>sel_options = [''Miscellaneous''], sel_value = Some ''Miscellaneous''\<rparr>,
      layer_select = \<lparr>sel_options = [''Foo''], sel_value = Some ''Foo''\<rparr>,
      time_slider = \<lparr>sel_options = [], sel_value = None\<rparr>,
      refreshes = 0\<rparr>"

text \<open>A catalogue with temporal extents, a stand-in for the data-frame library that
  knows the strings of the examples, explorers with other selections, and a service that
  rejects a time argument.\<close>

definition temporal_contents :: wms_contents where
  "temporal_contents =
     [(''GPW_Population_Density_2000'',
         \<lparr>timepositions = Some [''2020-01-01T00:00:00Z/2020-01-03T00:00:00Z/P1D'']\<rparr>),
      (''GPW_Population_Density_2020'',
         \<lparr>timepositions = Some [''2000-01-01T00:00:00Z/2020-01-01T00:00:00Z/P5Y'']\<rparr>),
      (''Water Bodies'', \<lparr>timepositions = None\<rparr>)]"

definition pandas_stub :: pandas where
  "pandas_stub =
     \<lparr>Timedelta = (\<lambda>s. if s = ''P1D'' then Inr 86400000000000 else Inl ValueError),
      Timestamp = (\<lambda>s.
        if s = ''2020-01-01T00:00:00Z'' then Inr 1577836800000000000
        else if s = ''2020-01-03T00:00:00Z'' then Inr 1578009600000000000
        else if s = ''2000-01-01T00:00:00Z'' then Inr 946684800000000000
        else Inl ValueError),
      offset_range = (\<lambda>s e f. Inr []),
      strftime = (\<lambda>fmt t.
        if t = 1577836800000000000 then ''2020-01-01T00:00:00Z''
        else if t = 1577923200000000000 then ''2020-01-02T00:00:00Z''
        else if t = 1578009600000000000 then ''2020-01-03T00:00:00Z''
        else ''other'')\<rparr>"

definition example_explorer_2020 :: explorer where
  "example_explorer_2020 =
     example_explorer\<lparr>layer_select :=
       \<lparr>sel_options = [''Population_Density_2000'', ''Population_Density_2020''],
        sel_value = Some ''Population_Density_2020''\<rparr>\<rparr>"

definition example_explorer_misc :: explorer where
  "example_explorer_misc =
     example_explorer\<lparr>
       product_select := \<lparr>sel_options = [''GPW'', ''Miscellaneous''], sel_value = Some ''Miscellaneous''\<rparr>,
       layer_select := \<lparr>sel_options = [''Water Bodies''], sel_value = Some ''Water Bodies''\<rparr>,
       time_slider := \<lparr>sel_options = [''2020-01-01T00:00:00Z'', ''2020-01-02T00:00:00Z''],
                       sel_value = Some ''2020-01-02T00:00:00Z''\<rparr>\<rparr>"

definition underscored_explorer :: explorer where
  "underscored_explorer =
     \<lparr>products_layers =
        [(''Miscellaneous'', []), (''GPW'', [''Population_Density_2000'']),
         (''MODIS'', [''Terra_Aerosol''])],
      product_select =
        \<lparr>sel_options = [''GPW'', ''MODIS'', ''Miscellaneous''], sel_value = Some ''GPW''\<rparr>,
      layer_select =
        \<lparr>sel_options = [''Population_Density_2000''], sel_value = Some ''Population_Density_2000''\<rparr>,
      time_slider = \<lparr>sel_options = [], sel_value = None\<rparr>,
      refreshes = 0\<rparr>"

definition underscored_explorer_misc :: explorer where
  "underscored_explorer_misc =
     underscored_explorer\<lparr>
       product_select :=
         \<lparr>sel_options = [''GPW'', ''MODIS'', ''Miscellaneous''], sel_value = Some ''Miscellaneous''\<rparr>,
       layer_select := \<lparr>sel_options = [], sel_value = None\<rparr>\<rparr>"

definition wms_rejecting_time :: wms_getmap where
  "wms_rejecting_time n kw =
     (case kw_time kw of
        Some (Some t) \<Rightarrow> Inl (ServiceException ''Invalid TIME'')
      | _ \<Rightarrow> Inr ''wms.cgi?bbox=-20037507.5394%2C1638517.4448%2C20037260.9187%2C7714669.3946'')"

section \<open>The fully qualified layer identifier\<close>

lemma init_example: "init example_contents = Inr example_explorer"
  by (simp add: init_def example_contents_def example_explorer_def build_products_layers_def
      add_layer_def split_first_def dict_append_def dict_setdefault_empty_def new_select_def)

text \<open>
  C4 (as amended). For a non-empty product \<open>P\<close> and a non-empty layer name \<open>L\<close>,
  \<^verbatim>\<open>get_layer(P, L)\<close> is \<open>L\<close> when \<open>P\<close> is the sentinel \<^verbatim>\<open>Miscellaneous\<close> and
  \<open>P_L\<close> otherwise, whatever the widgets hold; so \<^verbatim>\<open>get_layer("Miscellaneous",
  "Water Bodies")\<close> is \<^verbatim>\<open>"Water Bodies"\<close> and \<^verbatim>\<open>get_layer("GPW",
  "Population_Density_2000")\<close> is \<^verbatim>\<open>"GPW_Population_Density_2000"\<close>.
\<close>

theorem get_layer_fully_qualified:
  "(P \<noteq> [] \<and> L \<noteq> [] \<longrightarrow>
      get_layer st (Some P) (Some L) = Some (if P = ''Miscellaneous'' then L else P @ ''_'' @ L))
   \<and> get_layer st (Some ''Miscellaneous'') (Some ''Water Bodies'') = Some ''Water Bodies''
   \<and> get_layer st (Some ''GPW'') (Some ''Population_Density_2000'')
       = Some ''GPW_Population_Density_2000''"
  by (cases P; cases L) (simp_all add: get_layer_def py_or_def)

theorem get_layer_fully_qualified_witness:
  "''MODIS'' \<noteq> [] \<and> ''Terra_Aerosol'' \<noteq> [] \<and>
   get_layer example_explorer (Some ''MODIS'') (Some ''Terra_Aerosol'') = Some ''MODIS_Terra_Aerosol''"
  using get_layer_fully_qualified [of "''MODIS''" "''Terra_Aerosol''" example_explorer]
  by simp

text \<open>
  C4 as stated fails for an empty argument: \<^verbatim>\<open>product or self.product_select.value\<close>
  takes the widget's value when \<^verbatim>\<open>product\<close> is the empty string, so with \<^verbatim>\<open>GPW\<close>
  selected \<^verbatim>\<open>get_layer("", "Water Bodies")\<close> is \<^verbatim>\<open>"GPW_Water Bodies"\<close>, not
  \<^verbatim>\<open>"_Water Bodies"\<close>.
\<close>

theorem get_layer_empty_product_counterexample:
  "get_layer example_explorer (Some []) (Some ''Water Bodies'') = Some ''GPW_Water Bodies''
   \<and> get_layer example_explorer (Some []) (Some ''Water Bodies'')
       \<noteq> Some ([] @ ''_'' @ ''Water Bodies'')"
  by (simp add: get_layer_def py_or_def example_explorer_def)

section \<open>Occurrences and replacement\<close>

lemma occurrences_suffix_le: "occurrences a q \<le> occurrences a (p @ q)"
  by (induction p) auto

lemma occurrences_skip: "a \<noteq> [] \<Longrightarrow> hd a \<notin> set n \<Longrightarrow> occurrences a (n @ q) = occurrences a q"
  by (induction n) (auto simp: prefix_def neq_Nil_conv)

lemma occurrences_self_ge: "a \<noteq> [] \<Longrightarrow> 1 \<le> occurrences a (p @ a @ q)"
proof -
  assume "a \<noteq> []"
  then have "1 \<le> occurrences a (a @ q)" by (cases a) auto
  also have "\<dots> \<le> occurrences a (p @ a @ q)" by (rule occurrences_suffix_le)
  finally show ?thesis .
qed

lemma prefix_before_insert:
  assumes "prefix a (p @ n @ q)" and "n \<noteq> []" and "hd n \<notin> set a"
  shows "prefix a p"
proof -
  from assms(1) consider "prefix a p" | us where "a = p @ us" "prefix us (n @ q)"
    by (auto simp: prefix_append)
  then show ?thesis
  proof cases
    case 1 then show ?thesis .
  next
    case 2
    show ?thesis
    proof (cases us)
      case Nil with 2 show ?thesis by simp
    next
      case (Cons u us')
      with 2(2) assms(2) have "u = hd n" by (cases n) auto
      with 2(1) Cons assms(3) show ?thesis by simp
    qed
  qed
qed

lemma occurrences_insert_le:
  assumes "a \<noteq> []" and "n \<noteq> []" and "set a \<inter> set n = {}"
  shows "occurrences a (p @ n @ q) \<le> occurrences a (p @ m @ q)"
proof (induction p)
  case Nil
  from assms have "hd a \<notin> set n" by (cases a) auto
  with assms(1) have "occurrences a (n @ q) = occurrences a q" by (rule occurrences_skip)
  then show ?case using occurrences_suffix_le [of a q m] by simp
next
  case (Cons c p)
  from assms have hn: "hd n \<notin> set a" by (cases n) auto
  have "prefix a (c # p @ m @ q)" if "prefix a (c # p @ n @ q)"
  proof -
    from that have "prefix a ((c # p) @ n @ q)" by simp
    then have "prefix a (c # p)" using assms(2) hn by (rule prefix_before_insert)
    then have "prefix a ((c # p) @ m @ q)" by (rule prefix_prefix)
    then show ?thesis by simp
  qed
  with Cons show ?case by auto
qed

lemma replace_from_none: "occurrences a s = 0 \<Longrightarrow> replace_from s a n = s"
  by (induction s) (auto split: if_splits)

lemma replace_from_once:
  assumes "a \<noteq> []"
  shows "occurrences a (p @ a @ q) = 1 \<Longrightarrow> replace_from (p @ a @ q) a n = p @ n @ q"
proof (induction p)
  case Nil
  from assms obtain x xs where a: "a = x # xs" by (cases a) auto
  with Nil have "occurrences a (xs @ q) = 0" by simp
  with occurrences_suffix_le [of a q xs] have "occurrences a q = 0" by simp
  then have "replace_from q a n = q" by (rule replace_from_none)
  then show ?case using a by simp
next
  case (Cons c p)
  from assms have "1 \<le> occurrences a (p @ a @ q)" by (rule occurrences_self_ge)
  with Cons.prems have np: "\<not> prefix a (c # p @ a @ q)" and "occurrences a (p @ a @ q) = 1"
    by (auto split: if_splits)
  with Cons.IH show ?case by simp
qed

lemma render_append: "render f (xs @ ys) = render f xs @ render f ys"
  by (induction f xs rule: render.induct) auto

lemma render_upd_other: "Hole c \<notin> set t \<Longrightarrow> render (f(c := n)) t = render f t"
  by (induction f t rule: render.induct) auto

lemma hole_once_split:
  assumes "count_list t (Hole c) = 1"
  obtains pre post where "t = pre @ Hole c # post" "Hole c \<notin> set pre" "Hole c \<notin> set post"
proof -
  from assms have "Hole c \<in> set t" by (metis count_notin zero_neq_one)
  then obtain pre post where t: "t = pre @ Hole c # post" and pre: "Hole c \<notin> set pre"
    by (meson split_list_first)
  with assms have "count_list post (Hole c) = 0" by (simp add: count_notin)
  then have "Hole c \<notin> set post" by (simp add: count_list_0_iff)
  with t pre show ?thesis by (rule that)
qed

lemma replace_hole:
  assumes "count_list t (Hole c) = 1" and "f c \<noteq> []" and "occurrences (f c) (render f t) = 1"
  shows "replace_from (render f t) (f c) n = render (f(c := n)) t"
proof -
  from assms(1) obtain pre post where t: "t = pre @ Hole c # post"
    and "Hole c \<notin> set pre" "Hole c \<notin> set post" by (rule hole_once_split)
  then have "render (f(c := n)) t = render f pre @ n @ render f post"
    by (simp add: render_append render_upd_other)
  moreover have "render f t = render f pre @ f c @ render f post"
    by (simp add: t render_append)
  ultimately show ?thesis using assms(2,3) by (simp add: replace_from_once)
qed

lemma occurrences_render_upd:
  assumes "count_list t (Hole c) = 1" and "a \<noteq> []" and "n \<noteq> []" and "set a \<inter> set n = {}"
  shows "occurrences a (render (f(c := n)) t) \<le> occurrences a (render f t)"
proof -
  from assms(1) obtain pre post where t: "t = pre @ Hole c # post"
    and "Hole c \<notin> set pre" "Hole c \<notin> set post" by (rule hole_once_split)
  then have "render (f(c := n)) t = render f pre @ n @ render f post"
    by (simp add: render_append render_upd_other)
  moreover have "render f t = render f pre @ f c @ render f post"
    by (simp add: t render_append)
  ultimately show ?thesis using assms(2-4) by (simp add: occurrences_insert_le)
qed

lemma occurrences_render_ge:
  assumes "Hole c \<in> set t" and "f c \<noteq> []"
  shows "1 \<le> occurrences (f c) (render f t)"
proof -
  from assms(1) obtain pre post where "t = pre @ Hole c # post" by (meson split_list)
  then have "render f t = render f pre @ f c @ render f post" by (simp add: render_append)
  with assms(2) occurrences_self_ge [of "f c" "render f pre" "render f post"]
  show ?thesis by simp
qed

lemma replace_step:
  assumes once: "count_list t (Hole c) = 1"
    and hc: "h c = f c" and ne: "f c \<noteq> []"
    and occ: "occurrences (f c) (render h t) = 1"
  shows "replace_from (render h t) (f c) n = render (h(c := n)) t"
  using replace_hole [of t c h n] assms by simp

lemma occurrences_step:
  assumes once: "\<forall>c. count_list t (Hole c) = 1"
    and "h c = f c" and "f c \<noteq> []" and "n \<noteq> []" and "set (f c) \<inter> set n = {}" and "c \<noteq> d"
    and "occurrences (f c) (render h t) = 1"
  shows "occurrences (f c) (render (h(d := n)) t) = 1"
proof -
  from once have "count_list t (Hole d) = 1" by simp
  then have "occurrences (f c) (render (h(d := n)) t) \<le> occurrences (f c) (render h t)"
    using assms(3-5) by (rule occurrences_render_upd)
  moreover from once have "Hole c \<in> set t" by (metis count_notin zero_neq_one)
  then have "1 \<le> occurrences ((h(d := n)) c) (render (h(d := n)) t)"
    using assms(2,3,6) by (intro occurrences_render_ge) auto
  ultimately show ?thesis using assms(2,6,7) by simp
qed

lemma replace4_render:
  assumes once: "\<forall>c. count_list t (Hole c) = 1"
    and nef: "\<forall>c. f c \<noteq> []" and neg: "\<forall>c. g c \<noteq> []"
    and disj: "\<forall>c d. set (f c) \<inter> set (g d) = {}"
    and occ: "\<forall>c. occurrences (f c) (render f t) = 1"
  shows "replace4 f g (render f t) = render g t"
proof -
  define h1 where "h1 = f(XMIN := g XMIN)"
  define h2 where "h2 = h1(YMIN := g YMIN)"
  define h3 where "h3 = h2(XMAX := g XMAX)"
  define h4 where "h4 = h3(YMAX := g YMAX)"
  have e1: "h1 c = f c" if "c \<noteq> XMIN" for c
    using that by (simp add: h1_def)
  have e2: "h2 c = f c" if "c \<noteq> XMIN" "c \<noteq> YMIN" for c
    using that by (simp add: h1_def h2_def)
  have e3: "h3 c = f c" if "c \<noteq> XMIN" "c \<noteq> YMIN" "c \<noteq> XMAX" for c
    using that by (simp add: h1_def h2_def h3_def)
  have s1: "replace_from (render f t) (f XMIN) (g XMIN) = render h1 t"
    unfolding h1_def using once nef occ by (intro replace_step) auto
  have o1: "occurrences (f c) (render h1 t) = 1" if "c \<noteq> XMIN" for c
    unfolding h1_def using once nef neg disj occ that by (intro occurrences_step) auto
  have s2: "replace_from (render h1 t) (f YMIN) (g YMIN) = render h2 t"
    unfolding h2_def using once nef o1 [of YMIN] e1 [of YMIN] by (intro replace_step) auto
  have o2: "occurrences (f c) (render h2 t) = 1" if "c \<noteq> XMIN" "c \<noteq> YMIN" for c
    unfolding h2_def using once nef neg disj o1 [of c] e1 [of c] that
    by (intro occurrences_step) auto
  have s3: "replace_from (render h2 t) (f XMAX) (g XMAX) = render h3 t"
    unfolding h3_def using once nef o2 [of XMAX] e2 [of XMAX] by (intro replace_step) auto
  have o3: "occurrences (f c) (render h3 t) = 1" if "c \<noteq> XMIN" "c \<noteq> YMIN" "c \<noteq> XMAX" for c
    unfolding h3_def using once nef neg disj o2 [of c] e2 [of c] that
    by (intro occurrences_step) auto
  have s4: "replace_from (render h3 t) (f YMAX) (g YMAX) = render h4 t"
    unfolding h4_def using once nef o3 [of YMAX] e3 [of YMAX] by (intro replace_step) auto
  have "h4 c = g c" for c
    by (cases c) (simp_all add: h1_def h2_def h3_def h4_def)
  then have "h4 = g" by (rule ext)
  with s1 s2 s3 s4 show ?thesis by (simp add: replace4_def)
qed

section \<open>The template builder\<close>

lemma str_replace_nonempty: "old \<noteq> [] \<Longrightarrow> str_replace s old new = replace_from s old new"
  by (simp add: str_replace_def)

lemma placeholder_nonempty: "placeholder c \<noteq> []"
  by (cases c) simp_all

lemma decimal_form_nonempty: "decimal_form s \<Longrightarrow> s \<noteq> []"
  by (simp add: decimal_form_def)

lemma placeholder_chars: "x \<in> set (placeholder c) \<Longrightarrow> x \<in> set ''{}XMINYA''"
  by (cases c) auto

lemma decimal_char_not_placeholder_char:
  "x \<in> set ''{}XMINYA'' \<Longrightarrow> x \<notin> set ''0123456789.-+einfa''"
  by auto

lemma decimal_form_placeholder_disjoint:
  assumes "decimal_form s"
  shows "set s \<inter> set (placeholder c) = {}"
proof -
  have "x \<notin> set (placeholder c)" if "x \<in> set s" for x
  proof -
    from assms that have "x \<in> set ''0123456789.-+einfa''"
      by (simp add: decimal_form_def list_all_iff)
    then show ?thesis using placeholder_chars decimal_char_not_placeholder_char by blast
  qed
  then show ?thesis by blast
qed

lemma formulate_url_template_replace4:
  "decimal_bounds B \<Longrightarrow> formulate_url_template B url = replace4 B placeholder url"
  by (simp add: formulate_url_template_def replace4_def decimal_bounds_def str_replace_nonempty
      decimal_form_nonempty)

lemma substitute_bounds_replace4: "substitute_bounds B s = replace4 placeholder B s"
  by (simp add: substitute_bounds_def replace4_def str_replace_nonempty)

lemma decimal_bounds_all: "decimal_bounds B \<Longrightarrow> decimal_form (B c)"
  by (cases c) (simp_all add: decimal_bounds_def)

lemma each_hole_once_all: "each_hole_once t \<Longrightarrow> count_list t (Hole c) = 1"
  by (cases c) (simp_all add: each_hole_once_def)

lemma prefix_placeholder_iff:
  "prefix (placeholder c) (placeholder d @ r) \<longleftrightarrow> c = d"
  by (cases c; cases d) simp_all

lemma occurrences_placeholder_token:
  "occurrences (placeholder c) (placeholder d @ r)
     = (if c = d then 1 else 0) + occurrences (placeholder c) r"
proof -
  obtain w where d: "placeholder d = CHR ''{'' # w" and w: "CHR ''{'' \<notin> set w"
    by (cases d) simp_all
  have "hd (placeholder c) = CHR ''{''" by (cases c) simp_all
  with w have "occurrences (placeholder c) (w @ r) = occurrences (placeholder c) r"
    by (simp add: occurrences_skip placeholder_nonempty)
  moreover have "occurrences (placeholder c) (placeholder d @ r)
      = (if prefix (placeholder c) (placeholder d @ r) then 1 else 0)
        + occurrences (placeholder c) (w @ r)"
    by (simp add: d)
  ultimately show ?thesis by (simp add: prefix_placeholder_iff)
qed

lemma occurrences_placeholder_render:
  assumes "\<And>s. Text s \<in> set t \<Longrightarrow> CHR ''{'' \<notin> set s"
  shows "occurrences (placeholder c) (render placeholder t) = count_list t (Hole c)"
  using assms
proof (induction t)
  case Nil
  then show ?case by (simp add: placeholder_nonempty)
next
  case (Cons p t)
  then have IH: "occurrences (placeholder c) (render placeholder t) = count_list t (Hole c)"
    by simp
  show ?case
  proof (cases p)
    case (Text s)
    with Cons.prems have "CHR ''{'' \<notin> set s" by simp
    moreover have "hd (placeholder c) = CHR ''{''" by (cases c) simp_all
    ultimately have "occurrences (placeholder c) (s @ render placeholder t)
        = occurrences (placeholder c) (render placeholder t)"
      by (simp add: occurrences_skip placeholder_nonempty)
    with IH Text show ?thesis by simp
  next
    case (Hole d)
    with IH show ?thesis by (auto simp add: occurrences_placeholder_token)
  qed
qed

lemma text_subset_render: "Text s \<in> set t \<Longrightarrow> set s \<subseteq> set (render f t)"
  by (induction f t rule: render.induct) auto

lemma brace_not_url_char: "\<not> url_char CHR ''{''"
  by (simp add: url_char_def)

lemma is_url_no_brace: "is_url s \<Longrightarrow> CHR ''{'' \<notin> set s"
  using brace_not_url_char by (auto simp: is_url_def list_all_iff)

text \<open>
  C1. Let \<open>t\<close> be a request template with each of the four coordinate holes exactly
  once, \<open>B\<close> a bounding box given by the decimal strings of its coordinates, and
  \<open>U = instantiate B t\<close> the concrete URL, in which each coordinate string occurs
  exactly once. Then \<^verbatim>\<open>formulate_url_template\<close> (the substitution step of
  \<^verbatim>\<open>get_url_template\<close>) returns the template with the placeholders in the holes
  and every other character as in \<open>U\<close>; each placeholder occurs exactly once in it;
  and substituting the coordinate strings for the placeholders gives \<open>U\<close> again.
\<close>

theorem template_round_trip:
  assumes holes: "each_hole_once t"
    and dec: "decimal_bounds B"
    and url: "is_url (instantiate B t)"
    and once: "\<forall>c. occurrences (B c) (instantiate B t) = 1"
  shows "formulate_url_template B (instantiate B t) = template_string t
       \<and> (\<forall>c. occurrences (placeholder c) (formulate_url_template B (instantiate B t)) = 1)
       \<and> substitute_bounds B (formulate_url_template B (instantiate B t)) = instantiate B t"
proof -
  have h: "\<forall>c. count_list t (Hole c) = 1" using holes by (simp add: each_hole_once_all)
  have neB: "\<forall>c. B c \<noteq> []" using dec by (simp add: decimal_bounds_all decimal_form_nonempty)
  have neP: "\<forall>c. placeholder c \<noteq> []" by (simp add: placeholder_nonempty)
  have disj: "\<forall>c d. set (B c) \<inter> set (placeholder d) = {}"
    using dec by (simp add: decimal_bounds_all decimal_form_placeholder_disjoint)
  then have disj': "\<forall>c d. set (placeholder c) \<inter> set (B d) = {}" by (simp add: Int_commute)
  have fwd: "formulate_url_template B (instantiate B t) = template_string t"
    using h neB neP disj once dec
    by (simp add: formulate_url_template_replace4 instantiate_def template_string_def
        replace4_render)
  have "CHR ''{'' \<notin> set s" if "Text s \<in> set t" for s
    using that url text_subset_render [of s t B] is_url_no_brace [of "instantiate B t"]
    by (auto simp: instantiate_def)
  then have occ: "\<forall>c. occurrences (placeholder c) (render placeholder t) = 1"
    using h by (simp add: occurrences_placeholder_render)
  then have rt: "substitute_bounds B (template_string t) = instantiate B t"
    using h neB neP disj'
    by (simp add: substitute_bounds_replace4 instantiate_def template_string_def replace4_render)
  from fwd occ rt show ?thesis by (simp add: template_string_def)
qed

theorem template_round_trip_witness:
  "each_hole_once example_template \<and> decimal_bounds reference_bounds
   \<and> is_url (instantiate reference_bounds example_template)
   \<and> (\<forall>c. occurrences (reference_bounds c) (instantiate reference_bounds example_template) = 1)
   \<and> formulate_url_template reference_bounds (instantiate reference_bounds example_template)
       = ''https://gibs.earthdata.nasa.gov/wms/epsg3857/best/wms.cgi?SERVICE=WMS&srs=EPSG%3A3857&bbox={XMIN}%2C{YMIN}%2C{XMAX}%2C{YMAX}&width=256&height=256&format=image%2Fpng''
   \<and> substitute_bounds reference_bounds
        (formulate_url_template reference_bounds (instantiate reference_bounds example_template))
       = instantiate reference_bounds example_template"
proof -
  have a: "each_hole_once example_template"
    by (simp add: each_hole_once_def example_template_def)
  have b: "decimal_bounds reference_bounds"
    by (simp add: decimal_bounds_def decimal_form_def)
  have c: "is_url (instantiate reference_bounds example_template)"
    by (simp add: is_url_def instantiate_def example_template_def url_char_def)
  have d: "\<forall>c. occurrences (reference_bounds c) (instantiate reference_bounds example_template) = 1"
  proof
    fix c show "occurrences (reference_bounds c) (instantiate reference_bounds example_template) = 1"
      by (cases c) (simp_all add: instantiate_def example_template_def)
  qed
  have e: "template_string example_template
      = ''https://gibs.earthdata.nasa.gov/wms/epsg3857/best/wms.cgi?SERVICE=WMS&srs=EPSG%3A3857&bbox={XMIN}%2C{YMIN}%2C{XMAX}%2C{YMAX}&width=256&height=256&format=image%2Fpng''"
    by (simp add: template_string_def example_template_def)
  note r = template_round_trip [OF a b c d]
  from r have r1: "formulate_url_template reference_bounds
      (instantiate reference_bounds example_template) = template_string example_template"
    by (rule conjunct1)
  from r have r3: "substitute_bounds reference_bounds
      (formulate_url_template reference_bounds (instantiate reference_bounds example_template))
      = instantiate reference_bounds example_template"
    by (rule conjunct2 [THEN conjunct2])
  from a b c d r1 r3 show ?thesis unfolding e by blast
qed

text \<open>
  The condition that each coordinate string occurs once in the URL cannot be dropped:
  when the string of one coordinate is part of the string of another, the first
  replacement takes the occurrence inside the other coordinate, and the placeholder of
  that one is never inserted.
\<close>

lemma formulate_url_template_overlap:
  "formulate_url_template overlapping_bounds ''bbox=1.5%2C0.5%2C11.5%2C2.5''
     = ''bbox={XMIN}%2C{YMIN}%2C1{XMIN}%2C{YMAX}''"
  by (simp add: formulate_url_template_def str_replace_def)

section \<open>Substrings under replacement\<close>

lemma str_contains_sublist: "str_contains a s \<longleftrightarrow> sublist a s"
  by (induction s) (auto simp: sublist_Cons_right)

lemma str_contains_set: "str_contains a s \<Longrightarrow> set a \<subseteq> set s"
  by (simp add: str_contains_sublist set_mono_sublist)

lemma str_contains_drop: "str_contains a (drop k s) \<Longrightarrow> str_contains a s"
proof -
  assume "str_contains a (drop k s)"
  then have "sublist a (drop k s)" by (simp add: str_contains_sublist)
  moreover have "sublist (drop k s) s" by (rule sublist_drop)
  ultimately have "sublist a s" by (rule sublist_order.order_trans)
  then show ?thesis by (simp add: str_contains_sublist)
qed

lemma str_contains_skip:
  "a \<noteq> [] \<Longrightarrow> hd a \<notin> set w \<Longrightarrow> str_contains a (w @ r) \<Longrightarrow> str_contains a r"
  by (induction w) (auto simp: prefix_def neq_Nil_conv)

lemma prefix_replace_from:
  "n \<noteq> [] \<Longrightarrow> hd n \<notin> set v \<Longrightarrow> prefix v (replace_from s old n) \<Longrightarrow> prefix v s"
proof (induction s old n arbitrary: v rule: replace_from.induct)
  case (1 old new)
  then show ?case by simp
next
  case (2 c cs old new)
  show ?case
  proof (cases "old \<noteq> [] \<and> prefix old (c # cs)")
    case True
    with "2.prems"(3) have "prefix v (new @ replace_from (drop (length old) (c # cs)) old new)"
      by simp
    with "2.prems"(1,2) have "v = []"
      by (cases v; cases new) auto
    then show ?thesis by simp
  next
    case False
    with "2.prems"(3) have p: "prefix v (c # replace_from cs old new)" by auto
    show ?thesis
    proof (cases v)
      case Nil then show ?thesis by simp
    next
      case (Cons x v')
      with p have "x = c" and "prefix v' (replace_from cs old new)" by auto
      moreover from Cons "2.prems"(2) have "hd new \<notin> set v'" by simp
      ultimately have "prefix v' cs" using "2.IH"(2) [OF False "2.prems"(1)] by blast
      with Cons \<open>x = c\<close> show ?thesis by simp
    qed
  qed
qed

lemma str_contains_replace_from:
  "a \<noteq> [] \<Longrightarrow> n \<noteq> [] \<Longrightarrow> hd n \<notin> set (tl a) \<Longrightarrow> hd a \<notin> set (tl n)
   \<Longrightarrow> \<not> prefix a n \<Longrightarrow> \<not> prefix n a
   \<Longrightarrow> str_contains a (replace_from s old n) \<Longrightarrow> str_contains a s"
proof (induction s old n rule: replace_from.induct)
  case (1 old new)
  then show ?case by simp
next
  case (2 c cs old new)
  note a = "2.prems"(1) and n = "2.prems"(2) and hn = "2.prems"(3) and ha = "2.prems"(4)
    and pa = "2.prems"(5) and pn = "2.prems"(6) and cont = "2.prems"(7)
  show ?case
  proof (cases "old \<noteq> [] \<and> prefix old (c # cs)")
    case True
    from n obtain h n' where new: "new = h # n'" by (cases new) auto
    let ?r = "replace_from (drop (length old) (c # cs)) old new"
    from True cont have "str_contains a (h # n' @ ?r)" by (simp add: new)
    then consider "prefix a (new @ ?r)" | "str_contains a (n' @ ?r)" by (auto simp: new)
    then have "str_contains a ?r"
    proof cases
      case 1
      moreover have "prefix new (new @ ?r)" by simp
      ultimately have "prefix a new \<or> prefix new a" by (rule prefix_same_cases)
      with pa pn show ?thesis by simp
    next
      case 2
      with a ha new show ?thesis by (simp add: str_contains_skip)
    qed
    then have "str_contains a (drop (length old) (c # cs))"
      using "2.IH"(1) [OF True a n hn ha pa pn] by simp
    then show ?thesis by (rule str_contains_drop)
  next
    case False
    with cont have "str_contains a (c # replace_from cs old new)" by auto
    then consider "prefix a (c # replace_from cs old new)" | "str_contains a (replace_from cs old new)"
      by auto
    then show ?thesis
    proof cases
      case 1
      from a obtain x a' where a': "a = x # a'" by (cases a) auto
      with 1 have "x = c" and "prefix a' (replace_from cs old new)" by auto
      moreover from hn a' have "hd new \<notin> set a'" by simp
      ultimately have "prefix a' cs" using n prefix_replace_from by blast
      with a' \<open>x = c\<close> show ?thesis by simp
    next
      case 2
      then have "str_contains a cs" using "2.IH"(2) [OF False a n hn ha pa pn] by simp
      then show ?thesis by simp
    qed
  qed
qed

lemma replace_from_absent: "\<not> str_contains old s \<Longrightarrow> replace_from s old n = s"
  by (induction s) auto

lemma str_contains_replace_from_disjoint:
  assumes "a \<noteq> []" and "n \<noteq> []" and "set a \<inter> set n = {}"
    and "str_contains a (replace_from s old n)"
  shows "str_contains a s"
proof -
  from assms(1,2) obtain x a' h n' where a: "a = x # a'" and n: "n = h # n'"
    by (cases a; cases n) auto
  with assms(3) have "hd n \<notin> set (tl a)" "hd a \<notin> set (tl n)" "x \<noteq> h" by auto
  moreover from a n \<open>x \<noteq> h\<close> have "\<not> prefix a n" "\<not> prefix n a" by auto
  ultimately show ?thesis using assms(1,2,4) by (intro str_contains_replace_from [of a n s old])
qed

lemma str_contains_replace_from_placeholder:
  assumes "c \<noteq> d" and "str_contains (placeholder c) (replace_from s old (placeholder d))"
  shows "str_contains (placeholder c) s"
proof -
  have "placeholder c \<noteq> []" "placeholder d \<noteq> []" by (cases c; simp; fail) (cases d; simp; fail)
  moreover have "hd (placeholder d) \<notin> set (tl (placeholder c))"
    by (cases c; cases d) simp_all
  moreover have "hd (placeholder c) \<notin> set (tl (placeholder d))"
    by (cases c; cases d) simp_all
  moreover from assms(1) have "\<not> prefix (placeholder c) (placeholder d)"
    by (cases c; cases d) simp_all
  moreover from assms(1) have "\<not> prefix (placeholder d) (placeholder c)"
    by (cases c; cases d) simp_all
  ultimately show ?thesis using assms(2) by (rule str_contains_replace_from)
qed

lemma get_url_template_success:
  "wms 0 (get_map_kwargs B layer time) = Inr U \<Longrightarrow>
   get_url_template B wms layer time
     = ([get_map_kwargs B layer time], Inr (formulate_url_template B U))"
  by (simp add: get_url_template_def formulate_url_template_def Let_def)


lemma absent_step:
  assumes dec: "decimal_bounds B"
    and nb: "\<not> str_contains (B c) s" and np: "\<not> str_contains (placeholder c) s"
  shows "\<not> str_contains (B c) (replace_from s (B d) (placeholder d))
       \<and> \<not> str_contains (placeholder c) (replace_from s (B d) (placeholder d))"
proof (cases "d = c")
  case True
  with nb have "replace_from s (B d) (placeholder d) = s" by (simp add: replace_from_absent)
  with nb np show ?thesis by simp
next
  case False
  from dec have "B c \<noteq> []" and "set (B c) \<inter> set (placeholder d) = {}"
    by (simp_all add: decimal_bounds_all decimal_form_nonempty decimal_form_placeholder_disjoint)
  with nb have "\<not> str_contains (B c) (replace_from s (B d) (placeholder d))"
    using str_contains_replace_from_disjoint [of "B c" "placeholder d" s "B d"]
    by (auto simp: placeholder_nonempty)
  moreover from False np have "\<not> str_contains (placeholder c) (replace_from s (B d) (placeholder d))"
    using str_contains_replace_from_placeholder [of c d s "B d"] by auto
  ultimately show ?thesis by simp
qed

lemma is_url_no_placeholder: "is_url U \<Longrightarrow> \<not> str_contains (placeholder c) U"
proof
  assume "is_url U" and "str_contains (placeholder c) U"
  then have "set (placeholder c) \<subseteq> set U" by (simp add: str_contains_set)
  moreover have "CHR ''{'' \<in> set (placeholder c)" by (cases c) simp_all
  ultimately have "CHR ''{'' \<in> set U" by blast
  with \<open>is_url U\<close> show False by (simp add: is_url_no_brace)
qed

text \<open>
  C2. If the decimal string of a coordinate of the reference box does not occur in the
  URL, the template that \<^verbatim>\<open>formulate_url_template\<close> (the substitution step of
  \<^verbatim>\<open>get_url_template\<close>) returns does not contain the placeholder of that
  coordinate, and nothing is raised: \<^verbatim>\<open>get_url_template\<close> returns that template
  as an ordinary result.
\<close>

theorem missing_coordinate_no_placeholder:
  assumes dec: "decimal_bounds B" and url: "is_url U" and miss: "\<not> str_contains (B c) U"
  shows "\<not> str_contains (placeholder c) (formulate_url_template B U)
       \<and> (wms 0 (get_map_kwargs B layer time) = Inr U \<longrightarrow>
            get_url_template B wms layer time
              = ([get_map_kwargs B layer time], Inr (formulate_url_template B U)))"
proof -
  let ?s1 = "replace_from U (B XMIN) (placeholder XMIN)"
  let ?s2 = "replace_from ?s1 (B YMIN) (placeholder YMIN)"
  let ?s3 = "replace_from ?s2 (B XMAX) (placeholder XMAX)"
  let ?s4 = "replace_from ?s3 (B YMAX) (placeholder YMAX)"
  from url have "\<not> str_contains (placeholder c) U" by (rule is_url_no_placeholder)
  with dec miss have "\<not> str_contains (B c) ?s1 \<and> \<not> str_contains (placeholder c) ?s1"
    by (intro absent_step)
  with dec have "\<not> str_contains (B c) ?s2 \<and> \<not> str_contains (placeholder c) ?s2"
    by (intro absent_step) simp_all
  with dec have "\<not> str_contains (B c) ?s3 \<and> \<not> str_contains (placeholder c) ?s3"
    by (intro absent_step) simp_all
  with dec have "\<not> str_contains (B c) ?s4 \<and> \<not> str_contains (placeholder c) ?s4"
    by (intro absent_step) simp_all
  moreover from dec have "formulate_url_template B U = ?s4"
    by (simp add: formulate_url_template_replace4 replace4_def)
  ultimately show ?thesis by (simp add: get_url_template_success)
qed

theorem missing_coordinate_no_placeholder_witness:
  "decimal_bounds reference_bounds
   \<and> is_url ''wms.cgi?bbox=-20037507.54%2C1638517.4448%2C20037260.9187%2C7714669.3946''
   \<and> \<not> str_contains (reference_bounds XMIN)
         ''wms.cgi?bbox=-20037507.54%2C1638517.4448%2C20037260.9187%2C7714669.3946''
   \<and> formulate_url_template reference_bounds
         ''wms.cgi?bbox=-20037507.54%2C1638517.4448%2C20037260.9187%2C7714669.3946''
       = ''wms.cgi?bbox=-20037507.54%2C{YMIN}%2C{XMAX}%2C{YMAX}''
   \<and> \<not> str_contains (placeholder XMIN)
         (formulate_url_template reference_bounds
            ''wms.cgi?bbox=-20037507.54%2C1638517.4448%2C20037260.9187%2C7714669.3946'')
   \<and> snd (get_url_template reference_bounds
         (\<lambda>n kw. Inr ''wms.cgi?bbox=-20037507.54%2C1638517.4448%2C20037260.9187%2C7714669.3946'')
         ''GPW_Population_Density_2000'' None)
       = Inr ''wms.cgi?bbox=-20037507.54%2C{YMIN}%2C{XMAX}%2C{YMAX}''"
proof -
  let ?U = "''wms.cgi?bbox=-20037507.54%2C1638517.4448%2C20037260.9187%2C7714669.3946''"
  have a: "decimal_bounds reference_bounds"
    by (simp add: decimal_bounds_def decimal_form_def)
  have b: "is_url ?U"
    by (simp add: is_url_def url_char_def)
  have c: "\<not> str_contains (reference_bounds XMIN) ?U"
    by simp
  have d: "formulate_url_template reference_bounds ?U
      = ''wms.cgi?bbox=-20037507.54%2C{YMIN}%2C{XMAX}%2C{YMAX}''"
    by (simp add: formulate_url_template_def str_replace_def)
  note r = missing_coordinate_no_placeholder [OF a b c,
      of "\<lambda>n kw. Inr ?U" "''GPW_Population_Density_2000''" None]
  from r have r1: "\<not> str_contains (placeholder XMIN) (formulate_url_template reference_bounds ?U)"
    by (rule conjunct1)
  from r have r2: "snd (get_url_template reference_bounds (\<lambda>n kw. Inr ?U)
      ''GPW_Population_Density_2000'' None) = Inr (formulate_url_template reference_bounds ?U)"
    by simp
  from a b c d r1 r2 show ?thesis by (simp only: simp_thms)
qed

section \<open>The layer catalogue\<close>

lemma map_fst_dict_append: "map fst (dict_append d k v) = map fst d"
  by (induction d) (auto simp: dict_append_def)

lemma map_of_dict_append:
  "map_of (dict_append d k v) p
     = (if p = k then map_option (\<lambda>b. b @ [v]) (map_of d k) else map_of d p)"
  by (induction d) (auto simp: dict_append_def)

lemma map_of_absent: "k \<notin> fst ` set d \<Longrightarrow> map_of d k = None"
  by (simp add: map_of_eq_None_iff)

lemma map_of_setdefault:
  "map_of (dict_setdefault_empty d k) p
     = (if p = k \<and> k \<notin> set (map fst d) then Some [] else map_of d p)"
proof (cases "k \<in> set (map fst d)")
  case True
  then show ?thesis by (simp add: dict_setdefault_empty_def)
next
  case False
  then have "map_of d k = None" by (simp add: map_of_absent)
  with False show ?thesis
    by (simp add: dict_setdefault_empty_def map_add_def split: option.splits)
qed

lemma add_layer_classify:
  "add_layer d l
     = dict_append (dict_setdefault_empty d (fst (classify l))) (fst (classify l)) (snd (classify l))"
  if "''Miscellaneous'' \<in> set (map fst d)"
  using that by (auto simp: add_layer_def classify_def dict_setdefault_empty_def split: prod.splits)

lemma keys_add_layer:
  assumes "''Miscellaneous'' \<in> set (map fst d)"
  shows "map fst (add_layer d l)
     = (if fst (classify l) \<in> set (map fst d) then map fst d else map fst d @ [fst (classify l)])"
  using assms by (simp add: add_layer_classify map_fst_dict_append dict_setdefault_empty_def)

lemma map_of_add_layer:
  assumes "''Miscellaneous'' \<in> set (map fst d)"
  shows "map_of (add_layer d l) p
     = (if p = fst (classify l)
        then Some ((case map_of d p of None \<Rightarrow> [] | Some b \<Rightarrow> b) @ [snd (classify l)])
        else map_of d p)"
proof (cases "fst (classify l) \<in> set (map fst d)")
  case True
  then obtain b where "map_of d (fst (classify l)) = Some b"
    by (cases "map_of d (fst (classify l))") (auto simp: map_of_eq_None_iff)
  with True assms show ?thesis
    by (simp add: add_layer_classify map_of_dict_append map_of_setdefault)
next
  case False
  then have "map_of d (fst (classify l)) = None" by (simp add: map_of_absent)
  with False assms show ?thesis
    by (simp add: add_layer_classify map_of_dict_append map_of_setdefault)
qed

lemma sum_dict_append:
  "distinct (map fst d) \<Longrightarrow> k \<in> set (map fst d) \<Longrightarrow>
   sum_list (map (\<lambda>x. length (snd x)) (dict_append d k v))
     = Suc (sum_list (map (\<lambda>x. length (snd x)) d))"
proof (induction d)
  case Nil
  then show ?case by simp
next
  case (Cons e d)
  obtain k' vs where e: "e = (k', vs)" by (cases e)
  show ?case
  proof (cases "k' = k")
    case True
    with Cons.prems e have "k \<notin> set (map fst d)" by simp
    then have "dict_append d k v = d"
      by (induction d) (auto simp: dict_append_def)
    with True e show ?thesis by (simp add: dict_append_def)
  next
    case False
    with Cons e show ?thesis by (simp add: dict_append_def)
  qed
qed

lemma sum_add_layer:
  assumes "''Miscellaneous'' \<in> set (map fst d)" and "distinct (map fst d)"
  shows "sum_list (map (\<lambda>x. length (snd x)) (add_layer d l))
     = Suc (sum_list (map (\<lambda>x. length (snd x)) d))"
proof -
  let ?k = "fst (classify l)"
  let ?d = "dict_setdefault_empty d ?k"
  from assms(2) have "distinct (map fst ?d)" and "?k \<in> set (map fst ?d)"
    by (auto simp: dict_setdefault_empty_def)
  then have "sum_list (map (\<lambda>x. length (snd x)) (dict_append ?d ?k (snd (classify l))))
     = Suc (sum_list (map (\<lambda>x. length (snd x)) ?d))" by (rule sum_dict_append)
  moreover have "sum_list (map (\<lambda>x. length (snd x)) ?d) = sum_list (map (\<lambda>x. length (snd x)) d)"
    by (simp add: dict_setdefault_empty_def)
  ultimately show ?thesis using assms(1) by (simp add: add_layer_classify)
qed

lemma foldl_add_layer:
  assumes "''Miscellaneous'' \<in> set (map fst d)" and "distinct (map fst d)"
  shows "''Miscellaneous'' \<in> set (map fst (foldl add_layer d ls))
       \<and> distinct (map fst (foldl add_layer d ls))
       \<and> set (map fst (foldl add_layer d ls)) = set (map fst d) \<union> fst ` classify ` set ls
       \<and> (\<forall>p. map_of (foldl add_layer d ls) p
             = (case map_of d p of
                  Some b \<Rightarrow> Some (b @ bucket_of p ls)
                | None \<Rightarrow> if p \<in> fst ` classify ` set ls then Some (bucket_of p ls) else None))
       \<and> sum_list (map (\<lambda>x. length (snd x)) (foldl add_layer d ls))
           = sum_list (map (\<lambda>x. length (snd x)) d) + length ls"
  using assms
proof (induction ls arbitrary: d)
  case Nil
  then show ?case by (simp add: bucket_of_def split: option.splits)
next
  case (Cons l ls)
  let ?d = "add_layer d l"
  from Cons.prems have m: "''Miscellaneous'' \<in> set (map fst ?d)" and dd: "distinct (map fst ?d)"
    by (simp_all add: keys_add_layer)
  note IH = Cons.IH [OF m dd]
  have keys: "set (map fst ?d) = insert (fst (classify l)) (set (map fst d))"
    using Cons.prems(1) by (auto simp add: keys_add_layer)
  have mp: "map_of (foldl add_layer ?d ls) p
             = (case map_of d p of
                  Some b \<Rightarrow> Some (b @ bucket_of p (l # ls))
                | None \<Rightarrow> if p \<in> fst ` classify ` set (l # ls) then Some (bucket_of p (l # ls)) else None)" for p
    using IH Cons.prems(1)
    by (auto simp: map_of_add_layer bucket_of_def split: option.splits)
  from IH keys mp show ?case
    using sum_add_layer [OF Cons.prems] by auto
qed

lemma build_products_layers_props:
  "''Miscellaneous'' \<in> set (map fst (build_products_layers ls))
   \<and> distinct (map fst (build_products_layers ls))
   \<and> set (map fst (build_products_layers ls)) = insert ''Miscellaneous'' (fst ` classify ` set ls)
   \<and> (\<forall>p. map_of (build_products_layers ls) p
         = (if p = ''Miscellaneous'' \<or> p \<in> fst ` classify ` set ls
            then Some (bucket_of p ls) else None))
   \<and> sum_list (map (\<lambda>x. length (snd x)) (build_products_layers ls)) = length ls"
  using foldl_add_layer [of "[(''Miscellaneous'', [])]" ls]
  by (simp add: build_products_layers_def)

lemma init_succeeds:
  "\<exists>st. init contents = Inr st
     \<and> products_layers st = build_products_layers (sort (map fst contents))
     \<and> sel_options (product_select st) = sort (map fst (products_layers st))"
proof -
  let ?pl = "build_products_layers (sort (map fst contents))"
  let ?keys = "sort (map fst ?pl)"
  have "''Miscellaneous'' \<in> set ?keys"
    using build_products_layers_props [of "sort (map fst contents)"] by simp
  then obtain k ks where keys: "?keys = k # ks" by (cases ?keys) auto
  then have "k \<in> set ?keys" by simp
  then have "k \<in> fst ` set ?pl" by simp
  then obtain b where "map_of ?pl k = Some b"
    by (cases "map_of ?pl k") (auto simp: map_of_eq_None_iff)
  with keys show ?thesis by (simp add: init_def Let_def new_select_def)
qed

lemma classify_underscore:
  assumes "CHR ''_'' \<notin> set p"
  shows "classify (p @ CHR ''_'' # r) = (p, r)"
proof -
  from assms have "\<And>x. x \<in> set p \<Longrightarrow> x \<noteq> CHR ''_''" by blast
  then have "takeWhile (\<lambda>c. c \<noteq> CHR ''_'') (p @ CHR ''_'' # r) = p"
    and "dropWhile (\<lambda>c. c \<noteq> CHR ''_'') (p @ CHR ''_'' # r) = CHR ''_'' # r"
    by (simp_all add: takeWhile_append2 dropWhile_append2)
  then show ?thesis by (simp add: classify_def split_first_def)
qed

lemma classify_sentinel_prefix:
  assumes "CHR ''_'' \<in> set l" and "fst (classify l) = ''Miscellaneous''"
  shows "prefix ''Miscellaneous_'' l"
proof -
  let ?P = "\<lambda>c. c \<noteq> CHR ''_''"
  from assms have t: "takeWhile ?P l = ''Miscellaneous''"
    by (simp add: classify_def split_first_def)
  from assms(1) have "dropWhile ?P l \<noteq> []" by (auto simp: dropWhile_eq_Nil_conv)
  then obtain x xs where d: "dropWhile ?P l = x # xs" by (cases "dropWhile ?P l") auto
  then have "\<not> ?P x" using hd_dropWhile [of ?P l] by simp
  with d have "dropWhile ?P l = CHR ''_'' # xs" by simp
  with t have "l = ''Miscellaneous'' @ CHR ''_'' # xs"
    using takeWhile_dropWhile_id [of ?P l] by simp
  then show ?thesis by (simp add: prefix_def)
qed

lemma classify_plain: "CHR ''_'' \<notin> set l \<Longrightarrow> classify l = (''Miscellaneous'', l)"
  by (simp add: classify_def)

text \<open>
  C3. The catalogue that \<^verbatim>\<open>__init__\<close> builds from the identifiers of the service
  has one bucket per product, and the bucket of a product holds exactly the names of
  the identifiers classified to it, in sorted order of the identifiers: an identifier
  with an underscore is split at its first underscore into product and name, one
  without is kept whole under \<^verbatim>\<open>Miscellaneous\<close>. Every identifier is placed once:
  the bucket sizes add up to the number of identifiers. The three identifiers of the
  scenario give the buckets \<^verbatim>\<open>GPW\<close> with the two density layers and
  \<^verbatim>\<open>Miscellaneous\<close> with \<^verbatim>\<open>Water Bodies\<close>.
\<close>

theorem catalog_buckets:
  "\<exists>st. init contents = Inr st
     \<and> distinct (map fst (products_layers st))
     \<and> (\<forall>p. map_of (products_layers st) p
           = (if p = ''Miscellaneous'' \<or> p \<in> fst ` classify ` set (map fst contents)
              then Some (bucket_of p (sort (map fst contents))) else None))
     \<and> sum_list (map (\<lambda>x. length (snd x)) (products_layers st)) = length contents
     \<and> (\<forall>p r. CHR ''_'' \<notin> set p \<longrightarrow> classify (p @ CHR ''_'' # r) = (p, r))
     \<and> (\<forall>l. CHR ''_'' \<notin> set l \<longrightarrow> classify l = (''Miscellaneous'', l))
     \<and> build_products_layers
          (sort [''GPW_Population_Density_2000'', ''GPW_Population_Density_2020'', ''Water Bodies''])
        = [(''Miscellaneous'', [''Water Bodies'']),
           (''GPW'', [''Population_Density_2000'', ''Population_Density_2020''])]"
proof -
  obtain st where st: "init contents = Inr st"
      "products_layers st = build_products_layers (sort (map fst contents))"
    using init_succeeds by blast
  have ex: "build_products_layers
          (sort [''GPW_Population_Density_2000'', ''GPW_Population_Density_2020'', ''Water Bodies''])
        = [(''Miscellaneous'', [''Water Bodies'']),
           (''GPW'', [''Population_Density_2000'', ''Population_Density_2020''])]"
    by (simp add: build_products_layers_def add_layer_def split_first_def dict_append_def
        dict_setdefault_empty_def)
  from st ex build_products_layers_props [of "sort (map fst contents)"]
  show ?thesis by (simp add: classify_underscore classify_plain)
qed

theorem catalog_buckets_witness:
  "init example_contents = Inr example_explorer
   \<and> map_of (products_layers example_explorer) ''GPW''
       = Some [''Population_Density_2000'', ''Population_Density_2020'']
   \<and> map_of (products_layers example_explorer) ''Miscellaneous'' = Some [''Water Bodies'']
   \<and> CHR ''_'' \<notin> set ''GPW''
   \<and> classify ''GPW_Population_Density_2000'' = (''GPW'', ''Population_Density_2000'')
   \<and> CHR ''_'' \<notin> set ''Water Bodies''
   \<and> classify ''Water Bodies'' = (''Miscellaneous'', ''Water Bodies'')"
proof -
  from catalog_buckets [of example_contents]
  have a: "\<forall>p r. CHR ''_'' \<notin> set p \<longrightarrow> classify (p @ CHR ''_'' # r) = (p, r)"
    and b: "\<forall>l. CHR ''_'' \<notin> set l \<longrightarrow> classify l = (''Miscellaneous'', l)"
    by blast+
  from a have "CHR ''_'' \<notin> set ''GPW'' \<longrightarrow>
      classify (''GPW'' @ CHR ''_'' # ''Population_Density_2000'') = (''GPW'', ''Population_Density_2000'')"
    by blast
  moreover from b have "CHR ''_'' \<notin> set ''Water Bodies'' \<longrightarrow>
      classify ''Water Bodies'' = (''Miscellaneous'', ''Water Bodies'')"
    by blast
  ultimately show ?thesis by (simp add: init_example example_explorer_def)
qed

text \<open>
  C10 (as amended). The catalogue always has the \<^verbatim>\<open>Miscellaneous\<close> bucket, seeded
  before the loop, and the product options offer it. When every identifier contains an
  underscore and none begins with \<^verbatim>\<open>Miscellaneous_\<close>, the bucket is empty, and
  selecting the product leaves the layer widget without options.
\<close>

theorem miscellaneous_always_offered:
  "\<exists>st. init contents = Inr st
     \<and> map_of (products_layers st) ''Miscellaneous'' \<noteq> None
     \<and> ''Miscellaneous'' \<in> set (sel_options (product_select st))
     \<and> ((\<forall>l \<in> set (map fst contents). CHR ''_'' \<in> set l \<and> \<not> prefix ''Miscellaneous_'' l) \<longrightarrow>
          map_of (products_layers st) ''Miscellaneous'' = Some []
          \<and> (\<exists>st'. product_changed st ''Miscellaneous'' = Inr st'
                \<and> sel_options (layer_select st') = []))"
proof -
  obtain st where st: "init contents = Inr st"
      "products_layers st = build_products_layers (sort (map fst contents))"
      "sel_options (product_select st) = sort (map fst (products_layers st))"
    using init_succeeds by blast
  note props = build_products_layers_props [of "sort (map fst contents)"]
  have "bucket_of ''Miscellaneous'' (sort (map fst contents)) = []"
    if "\<forall>l \<in> set (map fst contents). CHR ''_'' \<in> set l \<and> \<not> prefix ''Miscellaneous_'' l"
  proof -
    have "fst (classify l) \<noteq> ''Miscellaneous''" if "l \<in> set (map fst contents)" for l
      using that \<open>\<forall>l \<in> set (map fst contents). CHR ''_'' \<in> set l \<and> \<not> prefix ''Miscellaneous_'' l\<close>
        classify_sentinel_prefix [of l] by blast
    then show ?thesis by (auto simp: bucket_of_def filter_empty_conv)
  qed
  with st props show ?thesis
    by (auto simp: product_changed_def update_layers_def set_options_def)
qed

theorem miscellaneous_always_offered_witness:
  "map fst underscored_contents = [''MODIS_Terra_Aerosol'', ''GPW_Population_Density_2000'']
   \<and> CHR ''_'' \<in> set ''MODIS_Terra_Aerosol'' \<and> \<not> prefix ''Miscellaneous_'' ''MODIS_Terra_Aerosol''
   \<and> CHR ''_'' \<in> set ''GPW_Population_Density_2000''
   \<and> \<not> prefix ''Miscellaneous_'' ''GPW_Population_Density_2000''
   \<and> (\<exists>st. init underscored_contents = Inr st
         \<and> sel_options (product_select st) = [''GPW'', ''MODIS'', ''Miscellaneous'']
         \<and> map_of (products_layers st) ''Miscellaneous'' = Some []
         \<and> (\<exists>st'. product_changed st ''Miscellaneous'' = Inr st'
               \<and> sel_options (layer_select st') = []))"
proof -
  have h: "\<forall>l \<in> set (map fst underscored_contents). CHR ''_'' \<in> set l \<and> \<not> prefix ''Miscellaneous_'' l"
    by (simp add: underscored_contents_def)
  obtain st where st: "init underscored_contents = Inr st"
    and m: "map_of (products_layers st) ''Miscellaneous'' = Some []
          \<and> (\<exists>st'. product_changed st ''Miscellaneous'' = Inr st'
                \<and> sel_options (layer_select st') = [])"
    using miscellaneous_always_offered [of underscored_contents] h by blast
  have "init underscored_contents = Inr
      \<lparr>products_layers = [(''Miscellaneous'', []), (''GPW'', [''Population_Density_2000'']),
                          (''MODIS'', [''Terra_Aerosol''])],
       product_select = \<lparr>sel_options = [''GPW'', ''MODIS'', ''Miscellaneous''], sel_value = Some ''GPW''\<rparr>,
       layer_select = \<lparr>sel_options = [''Population_Density_2000''],
                       sel_value = Some ''Population_Density_2000''\<rparr>,
       time_slider = \<lparr>sel_options = [], sel_value = None\<rparr>, refreshes = 0\<rparr>"
    by (simp add: init_def underscored_contents_def build_products_layers_def
      add_layer_def split_first_def dict_append_def dict_setdefault_empty_def new_select_def)
  with st have "sel_options (product_select st) = [''GPW'', ''MODIS'', ''Miscellaneous'']" by auto
  with st m have "\<exists>st. init underscored_contents = Inr st
         \<and> sel_options (product_select st) = [''GPW'', ''MODIS'', ''Miscellaneous'']
         \<and> map_of (products_layers st) ''Miscellaneous'' = Some []
         \<and> (\<exists>st'. product_changed st ''Miscellaneous'' = Inr st'
               \<and> sel_options (layer_select st') = [])" by blast
  then show ?thesis by (simp add: underscored_contents_def)
qed

text \<open>
  C10 as stated fails when an identifier has the sentinel as its prefix: the only
  identifier \<^verbatim>\<open>Miscellaneous_Foo\<close> contains an underscore, and the loop puts
  \<^verbatim>\<open>Foo\<close> into the \<^verbatim>\<open>Miscellaneous\<close> bucket, which is then not empty.
\<close>

theorem miscellaneous_bucket_counterexample:
  "map fst sentinel_prefixed_contents = [''Miscellaneous_Foo'']
   \<and> CHR ''_'' \<in> set ''Miscellaneous_Foo''
   \<and> init sentinel_prefixed_contents = Inr sentinel_prefixed_explorer
   \<and> map_of (products_layers sentinel_prefixed_explorer) ''Miscellaneous'' = Some [''Foo'']
   \<and> map_of (products_layers sentinel_prefixed_explorer) ''Miscellaneous'' \<noteq> Some []"
  by (simp add: init_def sentinel_prefixed_contents_def sentinel_prefixed_explorer_def
      build_products_layers_def add_layer_def split_first_def dict_append_def
      dict_setdefault_empty_def new_select_def)

section \<open>Time options\<close>

lemma length_fixed_range: "length (fixed_range s e d) = nat ((e - s) div d + 1)"
  by (simp add: fixed_range_def)

lemma nth_fixed_range: "i < length (fixed_range s e d) \<Longrightarrow> fixed_range s e d ! i = s + int i * d"
  by (simp add: fixed_range_def)

lemma fixed_range_nonempty: "0 < d \<Longrightarrow> s \<le> e \<Longrightarrow> fixed_range s e d \<noteq> []"
proof -
  assume "0 < d" "s \<le> e"
  then have "0 \<le> (e - s) div d" by (simp add: pos_imp_zdiv_nonneg_iff)
  then have "0 < length (fixed_range s e d)" by (simp add: length_fixed_range)
  then show ?thesis by simp
qed

lemma fixed_range_props:
  assumes "0 < d" and "s \<le> e"
  shows "fixed_range s e d \<noteq> [] \<and> hd (fixed_range s e d) = s
       \<and> (\<forall>i. Suc i < length (fixed_range s e d) \<longrightarrow>
             fixed_range s e d ! Suc i = fixed_range s e d ! i + d)
       \<and> sorted_wrt (<) (fixed_range s e d)
       \<and> last (fixed_range s e d) \<le> e \<and> e < last (fixed_range s e d) + d"
proof -
  let ?ts = "fixed_range s e d"
  let ?q = "(e - s) div d"
  from assms have q: "0 \<le> ?q" by (simp add: pos_imp_zdiv_nonneg_iff)
  have len: "length ?ts = nat (?q + 1)" by (rule length_fixed_range)
  from assms have ne: "?ts \<noteq> []" by (rule fixed_range_nonempty)
  then have hd: "hd ?ts = s" by (simp add: hd_conv_nth nth_fixed_range)
  have step: "\<forall>i. Suc i < length ?ts \<longrightarrow> ?ts ! Suc i = ?ts ! i + d"
    by (simp add: nth_fixed_range algebra_simps)
  have "?ts ! i < ?ts ! j" if "i < j" "j < length ?ts" for i j
    using that assms(1) by (simp add: nth_fixed_range)
  then have sorted: "sorted_wrt (<) ?ts" by (simp add: sorted_wrt_iff_nth_less)
  from ne q len have "last ?ts = s + ?q * d"
    by (simp add: last_conv_nth nth_fixed_range nat_diff_distrib)
  moreover from assms(1) have "?q * d \<le> e - s" and "e - s < ?q * d + d"
    using div_mult_mod_eq [of "e - s" d] pos_mod_sign [of d "e - s"] pos_mod_bound [of d "e - s"]
    by linarith+
  ultimately have "last ?ts \<le> e" and "e < last ?ts + d" by linarith+
  with ne hd step sorted show ?thesis by blast
qed

lemma update_time_parsed:
  assumes "contents_lookup contents (get_layer st None None) = Inr meta"
    and "timepositions meta = Some (tp # rest)"
    and "split_on CHR ''/'' tp = [ini, fin, step]"
    and "Timedelta pd step = Inr d"
  shows "update_time pd contents st x = materialize pd st [Timedelta_call step] ini fin (Delta d)"
  using assms by (simp add: update_time_def)

lemma update_time_fallback:
  assumes "contents_lookup contents (get_layer st None None) = Inr meta"
    and "timepositions meta = Some (tp # rest)"
    and "split_on CHR ''/'' tp = [ini, fin, step]"
    and "Timedelta pd step = Inl ValueError"
  shows "update_time pd contents st x
     = materialize pd st [Timedelta_call step, Lstrip_fallback step] ini fin (Alias (lstrip_P step))"
  using assms by (simp add: update_time_def)

lemma update_time_parse_error:
  assumes "contents_lookup contents (get_layer st None None) = Inr meta"
    and "timepositions meta = Some (tp # rest)"
    and "split_on CHR ''/'' tp = [ini, fin, step]"
    and "Timedelta pd step = Inl err" and "err \<noteq> ValueError"
  shows "update_time pd contents st x = ([Timedelta_call step], Inl err)"
  using assms by (cases err) (simp_all add: update_time_def)

lemma fst_materialize:
  "fst (materialize pd st calls ini fin fr) = calls @ [Date_range_call ini fin fr]"
  by (simp add: materialize_def Let_def split: sum.splits)

lemma update_time_example:
  "update_time pandas_stub temporal_contents example_explorer None
     = ([Timedelta_call ''P1D'',
         Date_range_call ''2020-01-01T00:00:00Z'' ''2020-01-03T00:00:00Z'' (Delta 86400000000000)],
        Inr (example_explorer\<lparr>
          time_slider := \<lparr>sel_options = [''2020-01-01T00:00:00Z'', ''2020-01-02T00:00:00Z'',
                                          ''2020-01-03T00:00:00Z''],
                          sel_value = Some ''2020-01-01T00:00:00Z''\<rparr>,
          refreshes := 1\<rparr>))"
  by (simp add: update_time_def materialize_def date_range_def fixed_range_def
      contents_lookup_def get_layer_def py_or_def example_explorer_def temporal_contents_def
      pandas_stub_def refresh_layer_def upt_conv_Cons)

text \<open>
  C5. For the selected layer, let the first time position be \<open>start/end/period\<close>, let
  the duration parser read \<open>period\<close> as the positive duration \<open>d\<close>, and let the
  interval run from the instant \<open>s\<close> to the instant \<open>e\<close>, \<open>s \<le> e\<close>. Then
  \<^verbatim>\<open>update_time\<close> sets the options of the time slider to the formatted instants of a
  sequence that starts at \<open>s\<close>, advances by \<open>d\<close>, is strictly increasing, ends at
  or before \<open>e\<close> with the next step past \<open>e\<close>, and sets the value of the slider to
  the first formatted instant. The format is \<^verbatim>\<open>%Y-%m-%dT%H:%M:%SZ\<close>.
\<close>

theorem time_options_sequence:
  assumes "contents_lookup contents (get_layer st None None) = Inr meta"
    and "timepositions meta = Some (tp # rest)"
    and "split_on CHR ''/'' tp = [ini, fin, step]"
    and "Timedelta pd step = Inr d" and "0 < d"
    and "Timestamp pd ini = Inr s" and "Timestamp pd fin = Inr e" and "s \<le> e"
  shows "\<exists>st' ts. snd (update_time pd contents st x) = Inr st'
       \<and> sel_options (time_slider st') = map (strftime pd ''%Y-%m-%dT%H:%M:%SZ'') ts
       \<and> sel_value (time_slider st') = Some (strftime pd ''%Y-%m-%dT%H:%M:%SZ'' (hd ts))
       \<and> ts \<noteq> [] \<and> hd ts = s
       \<and> (\<forall>i. Suc i < length ts \<longrightarrow> ts ! Suc i = ts ! i + d)
       \<and> sorted_wrt (<) ts \<and> last ts \<le> e \<and> e < last ts + d"
proof -
  let ?ts = "fixed_range s e d"
  let ?f = "strftime pd ''%Y-%m-%dT%H:%M:%SZ''"
  let ?st = "refresh_layer (st\<lparr>time_slider :=
      \<lparr>sel_options = map ?f ?ts, sel_value = Some (hd (map ?f ?ts))\<rparr>\<rparr>)"
  note props = fixed_range_props [OF \<open>0 < d\<close> \<open>s \<le> e\<close>]
  from assms(4-7) have "date_range pd ini fin (Delta d) = Inr ?ts"
    by (simp add: date_range_def)
  with props have "snd (materialize pd st [Timedelta_call step] ini fin (Delta d)) = Inr ?st"
    by (simp add: materialize_def Let_def)
  with assms(1-4) have "snd (update_time pd contents st x) = Inr ?st"
    by (simp add: update_time_parsed)
  moreover from props have "hd (map ?f ?ts) = ?f (hd ?ts)" by (simp add: hd_map)
  ultimately show ?thesis using props
    by (intro exI [of _ ?st] exI [of _ ?ts]) (simp add: refresh_layer_def)
qed

theorem time_options_sequence_witness:
  "contents_lookup temporal_contents (get_layer example_explorer None None)
       = Inr \<lparr>timepositions = Some [''2020-01-01T00:00:00Z/2020-01-03T00:00:00Z/P1D'']\<rparr>
   \<and> split_on CHR ''/'' ''2020-01-01T00:00:00Z/2020-01-03T00:00:00Z/P1D''
       = [''2020-01-01T00:00:00Z'', ''2020-01-03T00:00:00Z'', ''P1D'']
   \<and> Timedelta pandas_stub ''P1D'' = Inr 86400000000000
   \<and> (0::int) < 86400000000000
   \<and> Timestamp pandas_stub ''2020-01-01T00:00:00Z'' = Inr 1577836800000000000
   \<and> Timestamp pandas_stub ''2020-01-03T00:00:00Z'' = Inr 1578009600000000000
   \<and> (1577836800000000000::int) \<le> 1578009600000000000
   \<and> (\<exists>st' ts. snd (update_time pandas_stub temporal_contents example_explorer None) = Inr st'
       \<and> sel_options (time_slider st') = map (strftime pandas_stub ''%Y-%m-%dT%H:%M:%SZ'') ts
       \<and> sel_value (time_slider st') = Some (strftime pandas_stub ''%Y-%m-%dT%H:%M:%SZ'' (hd ts))
       \<and> ts \<noteq> [] \<and> hd ts = 1577836800000000000
       \<and> (\<forall>i. Suc i < length ts \<longrightarrow> ts ! Suc i = ts ! i + 86400000000000)
       \<and> sorted_wrt (<) ts \<and> last ts \<le> 1578009600000000000
       \<and> 1578009600000000000 < last ts + 86400000000000)"
proof -
  have h1: "contents_lookup temporal_contents (get_layer example_explorer None None)
       = Inr \<lparr>timepositions = Some [''2020-01-01T00:00:00Z/2020-01-03T00:00:00Z/P1D'']\<rparr>"
    by (simp add: contents_lookup_def get_layer_def py_or_def example_explorer_def
        temporal_contents_def)
  have h2: "timepositions \<lparr>timepositions = Some [''2020-01-01T00:00:00Z/2020-01-03T00:00:00Z/P1D'']\<rparr>
       = Some (''2020-01-01T00:00:00Z/2020-01-03T00:00:00Z/P1D'' # [])"
    by simp
  have h3: "split_on CHR ''/'' ''2020-01-01T00:00:00Z/2020-01-03T00:00:00Z/P1D''
       = [''2020-01-01T00:00:00Z'', ''2020-01-03T00:00:00Z'', ''P1D'']"
    by simp
  have h4: "Timedelta pandas_stub ''P1D'' = Inr 86400000000000"
    by (simp add: pandas_stub_def)
  have h5: "(0::int) < 86400000000000" by simp
  have h6: "Timestamp pandas_stub ''2020-01-01T00:00:00Z'' = Inr 1577836800000000000"
    by (simp add: pandas_stub_def)
  have h7: "Timestamp pandas_stub ''2020-01-03T00:00:00Z'' = Inr 1578009600000000000"
    by (simp add: pandas_stub_def)
  have h8: "(1577836800000000000::int) \<le> 1578009600000000000" by simp
  from time_options_sequence [OF h1 h2 h3 h4 h5 h6 h7 h8, of None] h1 h3 h4 h5 h6 h7 h8
  show ?thesis by blast
qed

text \<open>When the interval is empty the guard \<^verbatim>\<open>if options:\<close> leaves the slider as
  it was.\<close>

lemma update_time_empty_range:
  assumes "contents_lookup contents (get_layer st None None) = Inr meta"
    and "timepositions meta = Some (tp # rest)"
    and "split_on CHR ''/'' tp = [ini, fin, step]"
    and "Timedelta pd step = Inr d" and "0 < d"
    and "Timestamp pd ini = Inr s" and "Timestamp pd fin = Inr e" and "e < s"
  shows "snd (update_time pd contents st x) = Inr (refresh_layer st)"
proof -
  have "(e - s) div d < 0" using \<open>0 < d\<close> \<open>e < s\<close> by (simp add: pos_imp_zdiv_neg_iff)
  then have "fixed_range s e d = []" by (simp add: fixed_range_def)
  with assms(4-7) have "date_range pd ini fin (Delta d) = Inr []" by (simp add: date_range_def)
  then have "snd (materialize pd st [Timedelta_call step] ini fin (Delta d)) = Inr (refresh_layer st)"
    by (simp add: materialize_def)
  with assms(1-4) show ?thesis by (simp add: update_time_parsed)
qed

text \<open>
  C6. For a time position \<open>start/end/period\<close>, the first library call of
  \<^verbatim>\<open>update_time\<close> is the duration parser on \<open>period\<close>. The fallback is taken
  exactly when that call raises \<^verbatim>\<open>ValueError\<close>: if the parse succeeds the parsed
  duration goes to \<^verbatim>\<open>date_range\<close> and no fallback happens; if it fails, the
  frequency handed to \<^verbatim>\<open>date_range\<close> is the period with its leading \<^verbatim>\<open>P\<close>
  stripped.
\<close>

theorem fallback_only_after_failed_parse:
  assumes "contents_lookup contents (get_layer st None None) = Inr meta"
    and "timepositions meta = Some (tp # rest)"
    and "split_on CHR ''/'' tp = [ini, fin, step]"
  shows "hd (fst (update_time pd contents st x)) = Timedelta_call step
       \<and> ((\<exists>p. Lstrip_fallback p \<in> set (fst (update_time pd contents st x)))
            \<longleftrightarrow> Timedelta pd step = Inl ValueError)
       \<and> (\<forall>d. Timedelta pd step = Inr d \<longrightarrow>
             fst (update_time pd contents st x)
               = [Timedelta_call step, Date_range_call ini fin (Delta d)])
       \<and> (Timedelta pd step = Inl ValueError \<longrightarrow>
             fst (update_time pd contents st x)
               = [Timedelta_call step, Lstrip_fallback step,
                  Date_range_call ini fin (Alias (lstrip_P step))])
       \<and> (\<forall>r. step = CHR ''P'' # r \<and> \<not> prefix ''P'' r \<longrightarrow> lstrip_P step = r)"
proof -
  have strip: "\<forall>r. step = CHR ''P'' # r \<and> \<not> prefix ''P'' r \<longrightarrow> lstrip_P step = r"
  proof (intro allI impI)
    fix r assume "step = CHR ''P'' # r \<and> \<not> prefix ''P'' r"
    then show "lstrip_P step = r" by (cases r) (auto simp: lstrip_P_def)
  qed
  show ?thesis
  proof (cases "Timedelta pd step")
    case (Inr d)
    with assms have "fst (update_time pd contents st x)
        = [Timedelta_call step, Date_range_call ini fin (Delta d)]"
      by (simp add: update_time_parsed fst_materialize)
    with Inr strip show ?thesis by simp
  next
    case (Inl err)
    show ?thesis
    proof (cases "err = ValueError")
      case True
      with Inl assms have "fst (update_time pd contents st x)
          = [Timedelta_call step, Lstrip_fallback step,
             Date_range_call ini fin (Alias (lstrip_P step))]"
        by (simp add: update_time_fallback fst_materialize)
      with Inl True strip show ?thesis by simp
    next
      case False
      with Inl assms have "fst (update_time pd contents st x) = [Timedelta_call step]"
        by (simp add: update_time_parse_error)
      with Inl False strip show ?thesis by simp
    qed
  qed
qed

theorem fallback_only_after_failed_parse_witness:
  "contents_lookup temporal_contents (get_layer example_explorer None None)
       = Inr \<lparr>timepositions = Some [''2020-01-01T00:00:00Z/2020-01-03T00:00:00Z/P1D'']\<rparr>
   \<and> split_on CHR ''/'' ''2020-01-01T00:00:00Z/2020-01-03T00:00:00Z/P1D''
       = [''2020-01-01T00:00:00Z'', ''2020-01-03T00:00:00Z'', ''P1D'']
   \<and> Timedelta pandas_stub ''P1D'' = Inr 86400000000000
   \<and> fst (update_time pandas_stub temporal_contents example_explorer None)
       = [Timedelta_call ''P1D'',
          Date_range_call ''2020-01-01T00:00:00Z'' ''2020-01-03T00:00:00Z'' (Delta 86400000000000)]
   \<and> contents_lookup temporal_contents (get_layer example_explorer_2020 None None)
       = Inr \<lparr>timepositions = Some [''2000-01-01T00:00:00Z/2020-01-01T00:00:00Z/P5Y'']\<rparr>
   \<and> split_on CHR ''/'' ''2000-01-01T00:00:00Z/2020-01-01T00:00:00Z/P5Y''
       = [''2000-01-01T00:00:00Z'', ''2020-01-01T00:00:00Z'', ''P5Y'']
   \<and> Timedelta pandas_stub ''P5Y'' = Inl ValueError
   \<and> fst (update_time pandas_stub temporal_contents example_explorer_2020 None)
       = [Timedelta_call ''P5Y'', Lstrip_fallback ''P5Y'',
          Date_range_call ''2000-01-01T00:00:00Z'' ''2020-01-01T00:00:00Z'' (Alias ''5Y'')]"
proof -
  have a1: "contents_lookup temporal_contents (get_layer example_explorer None None)
       = Inr \<lparr>timepositions = Some [''2020-01-01T00:00:00Z/2020-01-03T00:00:00Z/P1D'']\<rparr>"
    by (simp add: contents_lookup_def get_layer_def py_or_def example_explorer_def
        temporal_contents_def)
  have a2: "timepositions \<lparr>timepositions = Some [''2020-01-01T00:00:00Z/2020-01-03T00:00:00Z/P1D'']\<rparr>
       = Some (''2020-01-01T00:00:00Z/2020-01-03T00:00:00Z/P1D'' # [])"
    by simp
  have a3: "split_on CHR ''/'' ''2020-01-01T00:00:00Z/2020-01-03T00:00:00Z/P1D''
       = [''2020-01-01T00:00:00Z'', ''2020-01-03T00:00:00Z'', ''P1D'']"
    by simp
  have a4: "Timedelta pandas_stub ''P1D'' = Inr 86400000000000"
    by (simp add: pandas_stub_def)
  have b1: "contents_lookup temporal_contents (get_layer example_explorer_2020 None None)
       = Inr \<lparr>timepositions = Some [''2000-01-01T00:00:00Z/2020-01-01T00:00:00Z/P5Y'']\<rparr>"
    by (simp add: contents_lookup_def get_layer_def py_or_def example_explorer_2020_def
        example_explorer_def temporal_contents_def)
  have b2: "timepositions \<lparr>timepositions = Some [''2000-01-01T00:00:00Z/2020-01-01T00:00:00Z/P5Y'']\<rparr>
       = Some (''2000-01-01T00:00:00Z/2020-01-01T00:00:00Z/P5Y'' # [])"
    by simp
  have b3: "split_on CHR ''/'' ''2000-01-01T00:00:00Z/2020-01-01T00:00:00Z/P5Y''
       = [''2000-01-01T00:00:00Z'', ''2020-01-01T00:00:00Z'', ''P5Y'']"
    by simp
  have b4: "Timedelta pandas_stub ''P5Y'' = Inl ValueError"
    by (simp add: pandas_stub_def)
  have b5: "lstrip_P ''P5Y'' = ''5Y''" by (simp add: lstrip_P_def)
  from fallback_only_after_failed_parse [OF a1 a2 a3, of pandas_stub None] a4
  have ra: "fst (update_time pandas_stub temporal_contents example_explorer None)
       = [Timedelta_call ''P1D'',
          Date_range_call ''2020-01-01T00:00:00Z'' ''2020-01-03T00:00:00Z'' (Delta 86400000000000)]"
    by blast
  from fallback_only_after_failed_parse [OF b1 b2 b3, of pandas_stub None] b4 b5
  have rb: "fst (update_time pandas_stub temporal_contents example_explorer_2020 None)
       = [Timedelta_call ''P5Y'', Lstrip_fallback ''P5Y'',
          Date_range_call ''2000-01-01T00:00:00Z'' ''2020-01-01T00:00:00Z'' (Alias ''5Y'')]"
    by simp
  from a1 a3 a4 ra b1 b3 b4 rb show ?thesis by blast
qed

text \<open>
  C7. For a layer without time positions \<^verbatim>\<open>update_time\<close> makes no library call at
  all, so parses no duration, and leaves the time slider with the single option
  \<^verbatim>\<open>N/A\<close>, which is also its value.
\<close>

theorem no_temporal_extent:
  assumes "contents_lookup contents (get_layer st None None) = Inr meta"
    and "timepositions meta = None \<or> timepositions meta = Some []"
  shows "\<exists>st'. update_time pd contents st x = ([], Inr st')
       \<and> sel_options (time_slider st') = [''N/A'']
       \<and> sel_value (time_slider st') = Some ''N/A''"
  using assms
  by (auto simp: update_time_def refresh_layer_def set_options_def split: option.splits)

theorem no_temporal_extent_witness:
  "contents_lookup temporal_contents (get_layer example_explorer_misc None None)
       = Inr \<lparr>timepositions = None\<rparr>
   \<and> sel_options (time_slider example_explorer_misc)
       = [''2020-01-01T00:00:00Z'', ''2020-01-02T00:00:00Z'']
   \<and> (\<exists>st'. update_time pandas_stub temporal_contents example_explorer_misc None = ([], Inr st')
         \<and> sel_options (time_slider st') = [''N/A'']
         \<and> sel_value (time_slider st') = Some ''N/A'')"
proof -
  have a: "contents_lookup temporal_contents (get_layer example_explorer_misc None None)
       = Inr \<lparr>timepositions = None\<rparr>"
    by (simp add: contents_lookup_def get_layer_def py_or_def example_explorer_misc_def
        example_explorer_def temporal_contents_def)
  have b: "timepositions \<lparr>timepositions = None\<rparr> = None
       \<or> timepositions \<lparr>timepositions = None\<rparr> = Some []"
    by simp
  have c: "sel_options (time_slider example_explorer_misc)
       = [''2020-01-01T00:00:00Z'', ''2020-01-02T00:00:00Z'']"
    by (simp add: example_explorer_misc_def)
  from no_temporal_extent [OF a b, of pandas_stub None] a c show ?thesis by blast
qed

section \<open>The retry without the time argument\<close>

text \<open>
  C8. When the first request of \<^verbatim>\<open>get_url_template\<close>, made with the time
  argument, fails with an exception, exactly one more request is made, equal to the
  first except that the time argument is omitted. If it succeeds the template is built
  from its URL; if it fails its error is the result, and nothing more is tried.
\<close>

theorem retry_without_time_once:
  assumes "wms 0 (get_map_kwargs B layer time) = Inl err" and "is_Exception err"
  shows "get_url_template B wms layer time
     = ([get_map_kwargs B layer time, (get_map_kwargs B layer time)\<lparr>kw_time := None\<rparr>],
        (case wms 1 ((get_map_kwargs B layer time)\<lparr>kw_time := None\<rparr>) of
           Inr url \<Rightarrow> Inr (formulate_url_template B url)
         | Inl err' \<Rightarrow> Inl err'))"
  using assms
  by (simp add: get_url_template_def formulate_url_template_def Let_def split: sum.splits)

theorem retry_without_time_once_witness:
  "wms_rejecting_time 0
       (get_map_kwargs reference_bounds ''GPW_Population_Density_2000'' (Some ''2020-01-01T00:00:00Z''))
     = Inl (ServiceException ''Invalid TIME'')
   \<and> is_Exception (ServiceException ''Invalid TIME'')
   \<and> get_url_template reference_bounds wms_rejecting_time ''GPW_Population_Density_2000''
         (Some ''2020-01-01T00:00:00Z'')
       = ([get_map_kwargs reference_bounds ''GPW_Population_Density_2000'' (Some ''2020-01-01T00:00:00Z''),
           (get_map_kwargs reference_bounds ''GPW_Population_Density_2000''
              (Some ''2020-01-01T00:00:00Z''))\<lparr>kw_time := None\<rparr>],
          Inr ''wms.cgi?bbox={XMIN}%2C{YMIN}%2C{XMAX}%2C{YMAX}'')"
proof -
  let ?kw = "get_map_kwargs reference_bounds ''GPW_Population_Density_2000''
      (Some ''2020-01-01T00:00:00Z'')"
  have a: "wms_rejecting_time 0 ?kw = Inl (ServiceException ''Invalid TIME'')"
    by (simp add: wms_rejecting_time_def get_map_kwargs_def)
  have b: "is_Exception (ServiceException ''Invalid TIME'')" by simp
  have c: "wms_rejecting_time 1 (?kw\<lparr>kw_time := None\<rparr>)
      = Inr ''wms.cgi?bbox=-20037507.5394%2C1638517.4448%2C20037260.9187%2C7714669.3946''"
    by (simp add: wms_rejecting_time_def)
  have d: "formulate_url_template reference_bounds
        ''wms.cgi?bbox=-20037507.5394%2C1638517.4448%2C20037260.9187%2C7714669.3946''
      = ''wms.cgi?bbox={XMIN}%2C{YMIN}%2C{XMAX}%2C{YMAX}''"
    by (simp add: formulate_url_template_def str_replace_def)
  from retry_without_time_once [where wms = wms_rejecting_time and B = reference_bounds
      and layer = "''GPW_Population_Density_2000''" and time = "Some ''2020-01-01T00:00:00Z''"
      and err = "ServiceException ''Invalid TIME''", OF a b] a b c d
  show ?thesis by simp
qed

section \<open>Changing the product\<close>

text \<open>A product with a non-empty bucket: the layer widget offers the sorted bucket and
  holds one of its members.\<close>

lemma set_options_member:
  "opts \<noteq> [] \<Longrightarrow> \<exists>l. sel_value (set_options opts w) = Some l \<and> l \<in> set opts"
  by (cases opts) (auto simp: set_options_def split: option.splits)

lemma product_changed_member:
  assumes "map_of (products_layers st) p = Some ls" and "ls \<noteq> []"
  shows "\<exists>st' l. product_changed st p = Inr st'
       \<and> sel_value (product_select st') = Some p
       \<and> sel_options (layer_select st') = sort ls
       \<and> sel_value (layer_select st') = Some l \<and> l \<in> set ls"
proof -
  from assms(2) have "sort ls \<noteq> []" by (cases ls) auto
  then obtain l where "sel_value (set_options (sort ls) (layer_select st)) = Some l"
    and "l \<in> set (sort ls)" using set_options_member by blast
  with assms(1) show ?thesis
    by (simp add: product_changed_def update_layers_def set_options_def)
qed

text \<open>
  C9, at the input where it fails. Every identifier of the catalogue has a product
  prefix, so the seeded \<^verbatim>\<open>Miscellaneous\<close> bucket stays empty but is offered. After
  the product-change event for \<^verbatim>\<open>Miscellaneous\<close> the layer widget has no options
  and no value: the current layer is not a member of the product's layer set, and the
  layer-change handler that follows raises \<^verbatim>\<open>KeyError\<close>.
\<close>

theorem product_change_to_empty_bucket:
  "init underscored_contents = Inr underscored_explorer
   \<and> product_changed underscored_explorer ''Miscellaneous'' = Inr underscored_explorer_misc
   \<and> sel_value (product_select underscored_explorer_misc) = Some ''Miscellaneous''
   \<and> map_of (products_layers underscored_explorer_misc) ''Miscellaneous'' = Some []
   \<and> sel_value (layer_select underscored_explorer_misc) = None
   \<and> get_layer underscored_explorer_misc None None = None
   \<and> update_time pandas_stub underscored_contents underscored_explorer_misc None
       = ([], Inl KeyError)"
  by (simp add: init_def underscored_contents_def underscored_explorer_def
      underscored_explorer_misc_def build_products_layers_def add_layer_def split_first_def
      dict_append_def dict_setdefault_empty_def new_select_def product_changed_def
      update_layers_def set_options_def get_layer_def py_or_def update_time_def
      contents_lookup_def)

end
